theory Spec2Isabelle
  imports Complex_Main "HOL-Library.Word"
begin

section \<open>Shared conventions\<close>

text \<open>
  The template parameters \<open>GID\<close> and \<open>LID\<close> of the velocity containers are
  unsigned machine integers. They are modelled at 32 bits, the width at which the
  error constants \<open>0xFFFFFFFFu\<close> of \<open>velocity_mesh_old.h\<close> are the all-ones
  value; \<open>+\<close>, \<open>-\<close> and \<open>*\<close> on them wrap around, as in C++.

  \<open>Realf\<close> and \<open>Real\<close> are typedefs declared outside the files at hand. In the
  containers their values are only stored and copied. In the mesh they are read in
  two ways. Where a statement is about which values are combined
  (\<open>nodeNeighbourArea\<close>, the dependency coefficients, the offset of the
  currents), they are the real numbers. Where it is about the value that the
  arithmetic of the code returns (\<open>mappedElementArea\<close>, and \<open>elementArea\<close>
  as \<open>elementArea_fp\<close>), they are IEEE 754 double precision numbers with
  rounding, overflow, underflow and NaN.
\<close>

type_synonym lid = "32 word"
type_synonym gid = "32 word"

text \<open>
  \<open>operator[]\<close> of \<open>std::vector\<close> and \<open>std::array\<close> outside the range, and
  integer division by zero, are undefined behaviour in C++. The model makes each
  of them a fault value.
\<close>

datatype fault = OutOfBounds | DivisionByZero

definition subscript :: "'a list \<Rightarrow> nat \<Rightarrow> fault + 'a" where
  "subscript xs i = (if i < length xs then Inr (xs ! i) else Inl OutOfBounds)"

section \<open>velocity\_block\_container.h\<close>

text \<open>
  The class template \<open>VelocityBlockContainer\<close>, non-CUDA branch: two counters
  and two vectors.
\<close>

record VelocityBlockContainer =
  currentCapacity :: lid
  numberOfBlocks :: lid
  block_data :: "real list"
  parameters :: "real list"

text \<open>\<open>capacity()\<close> and \<open>size()\<close>.\<close>

definition capacity :: "VelocityBlockContainer \<Rightarrow> lid" where
  "capacity c = currentCapacity c"

definition size_vbc :: "VelocityBlockContainer \<Rightarrow> lid" where
  "size_vbc c = numberOfBlocks c"

text \<open>
  \<open>pop()\<close>:
  \<^verbatim>\<open>if (numberOfBlocks == 0) return;  --numberOfBlocks;\<close>
\<close>

definition pop :: "VelocityBlockContainer \<Rightarrow> VelocityBlockContainer" where
  "pop c = (if numberOfBlocks c = 0 then c
            else c\<lparr>numberOfBlocks := numberOfBlocks c - 1\<rparr>)"

text \<open>
  The copy loops of \<open>recapacitate\<close>,
  \<^verbatim>\<open>for (size_t i=0; i<n; ++i) dummy[i] = source[i];\<close>
  with the counter \<open>i\<close> a \<open>size_t\<close> that cannot wrap below the 32-bit bound
  \<open>n\<close>. An index outside either vector is a fault.
\<close>

function copy_loop :: "nat \<Rightarrow> nat \<Rightarrow> real list \<Rightarrow> real list \<Rightarrow> fault + real list" where
  "copy_loop i n src dst =
     (if i < n
      then (if i < length src \<and> i < length dst
            then copy_loop (Suc i) n src (dst[i := src ! i])
            else Inl OutOfBounds)
      else Inr dst)"
  by pat_completeness auto
termination
  by (relation "measure (\<lambda>(i, n, src, dst). n - i)") auto

declare copy_loop.simps [simp del]

text \<open>
  \<open>recapacitate(newCapacity)\<close>. The constants \<open>WID3\<close> and
  \<open>BlockParams::N_VELOCITY_BLOCK_PARAMS\<close> come from \<open>common.h\<close>, which is not
  among the files; they are parameters here. The products
  \<open>newCapacity*WID3\<close> and \<open>numberOfBlocks*WID3\<close> are computed at the width of
  \<open>LID\<close> and only then converted to \<open>size_t\<close>, so they are word products read
  with \<open>unat\<close>. The fresh vectors are value-initialised, swapped with the members,
  and the old storage is released. The function returns its boolean together with
  the container after the call.
\<close>

definition recapacitate ::
  "lid \<Rightarrow> lid \<Rightarrow> lid \<Rightarrow> VelocityBlockContainer \<Rightarrow> fault + (bool \<times> VelocityBlockContainer)" where
  "recapacitate WID3 N_VELOCITY_BLOCK_PARAMS newCapacity c =
     (if newCapacity < numberOfBlocks c then Inr (False, c)
      else
        case copy_loop 0 (unat (numberOfBlocks c * WID3)) (block_data c)
               (replicate (unat (newCapacity * WID3)) 0) of
          Inl f \<Rightarrow> Inl f
        | Inr dummy_data \<Rightarrow>
            (case copy_loop 0 (unat (numberOfBlocks c * N_VELOCITY_BLOCK_PARAMS)) (parameters c)
                    (replicate (unat (newCapacity * N_VELOCITY_BLOCK_PARAMS)) 0) of
               Inl f \<Rightarrow> Inl f
             | Inr dummy_parameters \<Rightarrow>
                 Inr (True, c\<lparr>block_data := dummy_data, parameters := dummy_parameters,
                              currentCapacity := newCapacity\<rparr>)))"

text \<open>
  The storage invariant of the class: no more blocks than capacity, and room for
  \<open>WID3\<close> data values and \<open>N_VELOCITY_BLOCK_PARAMS\<close> parameters per block of
  capacity. The constructor and \<open>clear()\<close> establish it (all zero, both vectors
  empty).
\<close>

definition vbc_wf :: "lid \<Rightarrow> lid \<Rightarrow> VelocityBlockContainer \<Rightarrow> bool" where
  "vbc_wf WID3 N_VELOCITY_BLOCK_PARAMS c \<longleftrightarrow>
     numberOfBlocks c \<le> currentCapacity c \<and>
     length (block_data c) = unat (currentCapacity c) * unat WID3 \<and>
     length (parameters c) = unat (currentCapacity c) * unat N_VELOCITY_BLOCK_PARAMS"

section \<open>velocity\_mesh\_old.h\<close>

text \<open>
  The static members of \<open>VelocityMesh\<close> that the index functions read. The
  floating-point members (mesh limits, grid, block and cell sizes) are written by
  \<open>initialize\<close> and read by neither \<open>getIndices\<close> nor the integer overload
  of \<open>getGlobalID\<close>; they are left out, and with them the \<open>meshLimits\<close> argument.
\<close>

record VelocityMesh =
  max_velocity_blocks :: lid
  blockLength :: "lid \<times> lid \<times> lid"
  gridLength :: "gid \<times> gid \<times> gid"

definition error_velocity_block :: lid where
  "error_velocity_block = 0xFFFFFFFF"

definition error_velocity_block_index :: gid where
  "error_velocity_block_index = 0xFFFFFFFF"

text \<open>
  \<open>initialize(meshLimits, gridLength, blockLength)\<close>; the last line is
  \<^verbatim>\<open>max_velocity_blocks = gridLength[0]*gridLength[1]*gridLength[2];\<close>
  a product of 32-bit values.
\<close>

fun initialize :: "lid \<times> lid \<times> lid \<Rightarrow> lid \<times> lid \<times> lid \<Rightarrow> bool \<times> VelocityMesh" where
  "initialize (gl0, gl1, gl2) (bl0, bl1, bl2) =
     (True, \<lparr>max_velocity_blocks = gl0 * gl1 * gl2,
             blockLength = (bl0, bl1, bl2),
             gridLength = (gl0, gl1, gl2)\<rparr>)"

text \<open>\<open>getGlobalID(refLevel, i, j, k)\<close>.\<close>

definition getGlobalID :: "VelocityMesh \<Rightarrow> 32 word \<Rightarrow> lid \<Rightarrow> lid \<Rightarrow> lid \<Rightarrow> gid" where
  "getGlobalID m refLevel i j k =
     (case gridLength m of (g0, g1, g2) \<Rightarrow>
        if i \<ge> g0 \<or> j \<ge> g1 \<or> k \<ge> g2 then error_velocity_block
        else i + j * g0 + k * g0 * g1)"

text \<open>
  \<open>getIndices(globalID, refLevel, i, j, k)\<close>; the four reference arguments are the
  result. \<open>%\<close> and \<open>/\<close> by zero are faults.
\<close>

definition getIndices :: "VelocityMesh \<Rightarrow> gid \<Rightarrow> fault + (32 word \<times> lid \<times> lid \<times> lid)" where
  "getIndices m globalID =
     (case gridLength m of (g0, g1, g2) \<Rightarrow>
        if globalID \<ge> max_velocity_blocks m
        then Inr (0, error_velocity_block_index, error_velocity_block_index,
                  error_velocity_block_index)
        else if g0 = 0 \<or> g1 = 0 \<or> g0 * g1 = 0 then Inl DivisionByZero
        else Inr (0, globalID mod g0, (globalID div g0) mod g1, globalID div (g0 * g1)))"

section \<open>sysboundary/ionosphere.h\<close>

text \<open>
  Node and element indices (\<open>uint32_t\<close>, \<open>uint\<close>) are only compared, used as
  subscripts and counted upwards below a bound of the same type, so they are
  natural numbers. A \<open>std::array<Real, 3>\<close> is a triple; the arrays of capacity
  \<open>MAX_TOUCHING_ELEMENTS\<close> and \<open>MAX_DEPENDING_NODES\<close> are lists, and a subscript
  beyond the list is a fault.
\<close>

definition MAX_TOUCHING_ELEMENTS :: nat where
  "MAX_TOUCHING_ELEMENTS = 6"

definition MAX_DEPENDING_NODES :: nat where
  "MAX_DEPENDING_NODES = 10"

type_synonym vec3 = "real \<times> real \<times> real"

record Element =
  refLevel :: int
  corners :: "nat \<times> nat \<times> nat"

text \<open>
  \<open>struct Node\<close>. The member \<open>x\<close> is named \<open>x_pos\<close> and the member
  \<open>parameters\<close> is named \<open>node_parameters\<close>, since the plain names would hide
  a variable name and the container's field.
\<close>

record Node =
  numTouchingElements :: nat
  touchingElements :: "nat list"
  numDepNodes :: nat
  dependingNodes :: "nat list"
  dependingCoeffs :: "real list"
  transposedCoeffs :: "real list"
  x_pos :: vec3
  xMapped :: vec3
  depCoeffs :: "real list"
  depCoeffsT :: "real list"
  node_parameters :: "real list"
  fsgridCellCoupling :: "((int \<times> int \<times> int) \<times> real) list"

text \<open>\<open>struct SphericalTriGrid\<close>, without the MPI communicator handle.\<close>

record SphericalTriGrid =
  elements :: "Element list"
  nodes :: "Node list"
  rank :: int
  isCouplingToCells :: bool

text \<open>
  \<open>elementArea(elementIndex)\<close> in exact arithmetic: the three corner positions
  are fetched, then
  \<^verbatim>\<open>e1{b[0]-c[0], b[1]-c[1], b[2]-c[2]}\<close>, \<^verbatim>\<open>e2{c[0]-a[0], c[1]-a[1], c[2]-a[2]}\<close>,
  the area vector by components, and
  \<^verbatim>\<open>return 0.5 * sqrt(area[0]*area[0] + area[1]*area[1] + area[2]*area[2]);\<close>
\<close>

definition elementArea :: "SphericalTriGrid \<Rightarrow> nat \<Rightarrow> fault + real" where
  "elementArea g elementIndex =
     (case subscript (elements g) elementIndex of Inl f \<Rightarrow> Inl f | Inr el \<Rightarrow>
      (case corners el of (c0, c1, c2) \<Rightarrow>
       (case subscript (nodes g) c0 of Inl f \<Rightarrow> Inl f | Inr n0 \<Rightarrow>
        (case subscript (nodes g) c1 of Inl f \<Rightarrow> Inl f | Inr n1 \<Rightarrow>
         (case subscript (nodes g) c2 of Inl f \<Rightarrow> Inl f | Inr n2 \<Rightarrow>
          (case (x_pos n0, x_pos n1, x_pos n2) of
             ((a0, a1, a2), (b0, b1, b2), (c0, c1, c2)) \<Rightarrow>
               let e1_0 = b0 - c0; e1_1 = b1 - c1; e1_2 = b2 - c2;
                   e2_0 = c0 - a0; e2_1 = c1 - a1; e2_2 = c2 - a2;
                   area0 = e1_1 * e2_2 - e1_2 * e2_1;
                   area1 = e1_2 * e2_0 - e1_0 * e2_2;
                   area2 = e1_0 * e2_1 - e1_1 * e2_0
               in Inr (0.5 * sqrt (area0 * area0 + area1 * area1 + area2 * area2))))))))"

text \<open>
  \<open>nodeNeighbourArea(nodeIndex)\<close>: the loop
  \<^verbatim>\<open>for (uint i=0; i<n.numTouchingElements; i++) area += elementArea(n.touchingElements[i]);\<close>
  with its accumulator, started at \<open>i = 0\<close> and \<open>area = 0\<close>.
\<close>

function nodeNeighbourArea_loop ::
  "SphericalTriGrid \<Rightarrow> Node \<Rightarrow> nat \<Rightarrow> real \<Rightarrow> fault + real" where
  "nodeNeighbourArea_loop g n i area =
     (if i < numTouchingElements n
      then (case subscript (touchingElements n) i of Inl f \<Rightarrow> Inl f | Inr e \<Rightarrow>
            (case elementArea g e of Inl f \<Rightarrow> Inl f | Inr a \<Rightarrow>
               nodeNeighbourArea_loop g n (Suc i) (area + a)))
      else Inr area)"
  by pat_completeness auto
termination
  by (relation "measure (\<lambda>(g, n, i, area). numTouchingElements n - i)") auto

declare nodeNeighbourArea_loop.simps [simp del]

definition nodeNeighbourArea :: "SphericalTriGrid \<Rightarrow> nat \<Rightarrow> fault + real" where
  "nodeNeighbourArea g nodeIndex =
     (case subscript (nodes g) nodeIndex of Inl f \<Rightarrow> Inl f
      | Inr n \<Rightarrow> nodeNeighbourArea_loop g n 0 0)"

text \<open>
  The vocabulary of the specification: difference, cross product and Euclidean
  length of vectors, and "half the magnitude of the cross product of the edge
  vectors \<open>b - c\<close> and \<open>c - a\<close>".
\<close>

fun vsub :: "vec3 \<Rightarrow> vec3 \<Rightarrow> vec3" where
  "vsub (u0, u1, u2) (v0, v1, v2) = (u0 - v0, u1 - v1, u2 - v2)"

fun cross :: "vec3 \<Rightarrow> vec3 \<Rightarrow> vec3" where
  "cross (u0, u1, u2) (v0, v1, v2) = (u1 * v2 - u2 * v1, u2 * v0 - u0 * v2, u0 * v1 - u1 * v0)"

fun magnitude :: "vec3 \<Rightarrow> real" where
  "magnitude (u0, u1, u2) = sqrt (u0\<^sup>2 + u1\<^sup>2 + u2\<^sup>2)"

definition half_cross_magnitude :: "vec3 \<Rightarrow> vec3 \<Rightarrow> vec3 \<Rightarrow> real" where
  "half_cross_magnitude a b c = magnitude (cross (vsub b c) (vsub c a)) / 2"

text \<open>An element index is valid when it and the element's three corners are in range.\<close>

definition valid_element :: "SphericalTriGrid \<Rightarrow> nat \<Rightarrow> bool" where
  "valid_element g e \<longleftrightarrow>
     e < length (elements g) \<and>
     (case corners (elements g ! e) of (c0, c1, c2) \<Rightarrow>
        c0 < length (nodes g) \<and> c1 < length (nodes g) \<and> c2 < length (nodes g))"

text \<open>The corner nodes of a valid element.\<close>

definition corner0 :: "SphericalTriGrid \<Rightarrow> nat \<Rightarrow> Node" where
  "corner0 g e = nodes g ! fst (corners (elements g ! e))"

definition corner1 :: "SphericalTriGrid \<Rightarrow> nat \<Rightarrow> Node" where
  "corner1 g e = nodes g ! fst (snd (corners (elements g ! e)))"

definition corner2 :: "SphericalTriGrid \<Rightarrow> nat \<Rightarrow> Node" where
  "corner2 g e = nodes g ! snd (snd (corners (elements g ! e)))"

text \<open>
  The area of a valid element on the sphere in the vocabulary of the
  specification.
\<close>

definition sphereArea :: "SphericalTriGrid \<Rightarrow> nat \<Rightarrow> real" where
  "sphereArea g e =
     half_cross_magnitude (x_pos (corner0 g e)) (x_pos (corner1 g e)) (x_pos (corner2 g e))"

text \<open>
  A small mesh for evaluation: four nodes, two triangles. Node 3 is unmapped.
  Every array is padded to its capacity.
\<close>

definition example_node :: "vec3 \<Rightarrow> vec3 \<Rightarrow> nat \<Rightarrow> nat list \<Rightarrow> real \<Rightarrow> Node" where
  "example_node p q k te src =
     \<lparr>numTouchingElements = k, touchingElements = te,
      numDepNodes = 0, dependingNodes = replicate 10 0,
      dependingCoeffs = replicate 10 0, transposedCoeffs = replicate 10 0,
      x_pos = p, xMapped = q,
      depCoeffs = replicate 10 0, depCoeffsT = replicate 10 0,
      node_parameters = [src], fsgridCellCoupling = []\<rparr>"

definition example_grid :: SphericalTriGrid where
  "example_grid =
     \<lparr>elements = [\<lparr>refLevel = 0, corners = (0, 1, 2)\<rparr>, \<lparr>refLevel = 0, corners = (1, 3, 2)\<rparr>],
      nodes = [example_node (0, 0, 1) (0, 0, 1) 1 [0, 0, 0, 0, 0, 0] 3,
               example_node (1, 0, 1) (1, 0, 1) 2 [0, 1, 0, 0, 0, 0] 1,
               example_node (0, 1, 1) (0, 1, 1) 2 [0, 1, 0, 0, 0, 0] 1,
               example_node (1, 1, 1) (0, 0, 0) 1 [1, 0, 0, 0, 0, 0] 5],
      rank = 0, isCouplingToCells = True\<rparr>"

section \<open>Double precision arithmetic\<close>

text \<open>
  The typedef of \<open>Real\<close> is outside the files; it is read as \<open>double\<close>, and
  every operation of the code is taken to be rounded to double on its own (no fused
  multiply-add, no wider intermediate format). With a 32-bit \<open>Real\<close> the same
  effects occur at smaller exponents.

  A double is a finite number, an infinity or NaN. The sign of a zero is left out:
  no comparison and no operation below tells the two zeros apart in its value.
\<close>

datatype fp = Finite real | PlusInfinity | MinusInfinity | NaN

text \<open>Powers of two with integer exponent.\<close>

definition pow2 :: "int \<Rightarrow> real" where
  "pow2 k = 2 powi k"

text \<open>Rounding of a non-negative number to an integer, ties to the even one.\<close>

definition round_half_even :: "real \<Rightarrow> int" where
  "round_half_even r =
     (let f = \<lfloor>r\<rfloor>; d = r - of_int f
      in if d < 1 / 2 then f else if 1 / 2 < d then f + 1 else if even f then f else f + 1)"

text \<open>
  Rounding of a real number to the nearest double, ties to even, for the format
  with 53 significant bits and exponents from \<open>-1022\<close> to \<open>1023\<close>. A number
  at or beyond \<open>(2 - 2^-53) * 2^1023\<close> rounds to an infinity. Below
  \<open>2^-1022\<close> the spacing of the doubles stays \<open>2^-1074\<close> (subnormal numbers),
  so a number of magnitude below \<open>2^-1075\<close> rounds to zero. Elsewhere the spacing
  is \<open>2^(e - 52)\<close> for the exponent \<open>e\<close> of the number.
\<close>

definition rnd :: "real \<Rightarrow> fp" where
  "rnd x =
     (if x = 0 then Finite 0
      else if (2 - pow2 (- 53)) * pow2 1023 \<le> \<bar>x\<bar>
      then (if 0 < x then PlusInfinity else MinusInfinity)
      else
        let e = (if \<bar>x\<bar> < pow2 (- 1022) then - 1022 else \<lfloor>log 2 \<bar>x\<bar>\<rfloor>);
            q = pow2 (e - 52)
        in Finite (sgn x * of_int (round_half_even (\<bar>x\<bar> / q)) * q))"

text \<open>
  The operations of the code on doubles: each is the exact operation followed by
  one rounding, with the IEEE rules for infinities and NaN. \<open>feq\<close> is \<open>==\<close>
  and \<open>fge\<close> is \<open>>=\<close>; both are false when an operand is NaN.
\<close>

fun fneg :: "fp \<Rightarrow> fp" where
  "fneg (Finite x) = Finite (- x)"
| "fneg PlusInfinity = MinusInfinity"
| "fneg MinusInfinity = PlusInfinity"
| "fneg NaN = NaN"

fun fadd :: "fp \<Rightarrow> fp \<Rightarrow> fp" where
  "fadd (Finite x) (Finite y) = rnd (x + y)"
| "fadd NaN b = NaN"
| "fadd a NaN = NaN"
| "fadd PlusInfinity MinusInfinity = NaN"
| "fadd MinusInfinity PlusInfinity = NaN"
| "fadd PlusInfinity b = PlusInfinity"
| "fadd a PlusInfinity = PlusInfinity"
| "fadd MinusInfinity b = MinusInfinity"
| "fadd a MinusInfinity = MinusInfinity"

definition fsub :: "fp \<Rightarrow> fp \<Rightarrow> fp" where
  "fsub a b = fadd a (fneg b)"

fun fmul :: "fp \<Rightarrow> fp \<Rightarrow> fp" where
  "fmul (Finite x) (Finite y) = rnd (x * y)"
| "fmul NaN b = NaN"
| "fmul a NaN = NaN"
| "fmul (Finite x) b = (if x = 0 then NaN else if 0 < x then b else fneg b)"
| "fmul a (Finite y) = (if y = 0 then NaN else if 0 < y then a else fneg a)"
| "fmul PlusInfinity b = b"
| "fmul MinusInfinity b = fneg b"

fun fsqrt :: "fp \<Rightarrow> fp" where
  "fsqrt (Finite x) = (if x < 0 then NaN else rnd (sqrt x))"
| "fsqrt PlusInfinity = PlusInfinity"
| "fsqrt MinusInfinity = NaN"
| "fsqrt NaN = NaN"

fun feq :: "fp \<Rightarrow> fp \<Rightarrow> bool" where
  "feq (Finite x) (Finite y) = (x = y)"
| "feq PlusInfinity PlusInfinity = True"
| "feq MinusInfinity MinusInfinity = True"
| "feq a b = False"

fun fge :: "fp \<Rightarrow> fp \<Rightarrow> bool" where
  "fge (Finite x) (Finite y) = (y \<le> x)"
| "fge NaN b = False"
| "fge a NaN = False"
| "fge PlusInfinity b = True"
| "fge a MinusInfinity = True"
| "fge a b = False"

text \<open>
  A coordinate triple as the doubles it is stored in. The fields of the mesh hold
  finite numbers.
\<close>

type_synonym fvec3 = "fp \<times> fp \<times> fp"

fun stored :: "vec3 \<Rightarrow> fvec3" where
  "stored (u0, u1, u2) = (Finite u0, Finite u1, Finite u2)"

text \<open>
  \<open>elementArea(elementIndex)\<close> in the arithmetic of the code: the same steps in
  the same order as in \<open>elementArea\<close> above, every \<open>-\<close>, \<open>*\<close>, \<open>+\<close> and
  \<open>sqrt\<close> a double operation.
\<close>

definition elementArea_fp :: "SphericalTriGrid \<Rightarrow> nat \<Rightarrow> fault + fp" where
  "elementArea_fp g elementIndex =
     (case subscript (elements g) elementIndex of Inl f \<Rightarrow> Inl f | Inr el \<Rightarrow>
      (case corners el of (c0, c1, c2) \<Rightarrow>
       (case subscript (nodes g) c0 of Inl f \<Rightarrow> Inl f | Inr n0 \<Rightarrow>
        (case subscript (nodes g) c1 of Inl f \<Rightarrow> Inl f | Inr n1 \<Rightarrow>
         (case subscript (nodes g) c2 of Inl f \<Rightarrow> Inl f | Inr n2 \<Rightarrow>
          (case (stored (x_pos n0), stored (x_pos n1), stored (x_pos n2)) of
             ((a0, a1, a2), (b0, b1, b2), (c0, c1, c2)) \<Rightarrow>
               let e1_0 = fsub b0 c0; e1_1 = fsub b1 c1; e1_2 = fsub b2 c2;
                   e2_0 = fsub c0 a0; e2_1 = fsub c1 a1; e2_2 = fsub c2 a2;
                   area0 = fsub (fmul e1_1 e2_2) (fmul e1_2 e2_1);
                   area1 = fsub (fmul e1_2 e2_0) (fmul e1_0 e2_2);
                   area2 = fsub (fmul e1_0 e2_1) (fmul e1_1 e2_0)
               in Inr (fmul (Finite 0.5)
                        (fsqrt (fadd (fadd (fmul area0 area0) (fmul area1 area1))
                                  (fmul area2 area2))))))))))"

text \<open>
  \<open>mappedElementArea(elementIndex)\<close> in the arithmetic of the code: the test
  \<^verbatim>\<open>if (sqrt(a[0]*a[0] + a[1]*a[1] + a[2]*a[2]) == 0 || ... ) return 0;\<close>
  on the mapped positions of the three corners, then the steps of \<open>elementArea\<close>
  on them.
\<close>

definition mappedElementArea :: "SphericalTriGrid \<Rightarrow> nat \<Rightarrow> fault + fp" where
  "mappedElementArea g elementIndex =
     (case subscript (elements g) elementIndex of Inl f \<Rightarrow> Inl f | Inr el \<Rightarrow>
      (case corners el of (c0, c1, c2) \<Rightarrow>
       (case subscript (nodes g) c0 of Inl f \<Rightarrow> Inl f | Inr n0 \<Rightarrow>
        (case subscript (nodes g) c1 of Inl f \<Rightarrow> Inl f | Inr n1 \<Rightarrow>
         (case subscript (nodes g) c2 of Inl f \<Rightarrow> Inl f | Inr n2 \<Rightarrow>
          (case (stored (xMapped n0), stored (xMapped n1), stored (xMapped n2)) of
             ((a0, a1, a2), (b0, b1, b2), (c0, c1, c2)) \<Rightarrow>
               if feq (fsqrt (fadd (fadd (fmul a0 a0) (fmul a1 a1)) (fmul a2 a2))) (Finite 0) \<or>
                  feq (fsqrt (fadd (fadd (fmul b0 b0) (fmul b1 b1)) (fmul b2 b2))) (Finite 0) \<or>
                  feq (fsqrt (fadd (fadd (fmul c0 c0) (fmul c1 c1)) (fmul c2 c2))) (Finite 0)
               then Inr (Finite 0)
               else
                 let e1_0 = fsub b0 c0; e1_1 = fsub b1 c1; e1_2 = fsub b2 c2;
                     e2_0 = fsub c0 a0; e2_1 = fsub c1 a1; e2_2 = fsub c2 a2;
                     area0 = fsub (fmul e1_1 e2_2) (fmul e1_2 e2_1);
                     area1 = fsub (fmul e1_2 e2_0) (fmul e1_0 e2_2);
                     area2 = fsub (fmul e1_0 e2_1) (fmul e1_1 e2_0)
                 in Inr (fmul (Finite 0.5)
                          (fsqrt (fadd (fadd (fmul area0 area0) (fmul area1 area1))
                                    (fmul area2 area2))))))))))"

text \<open>
  The vocabulary of the specification in double arithmetic: difference, cross
  product and length of vectors, and half the length of the cross product of
  \<open>b - c\<close> and \<open>c - a\<close>.
\<close>

fun fp_vsub :: "fvec3 \<Rightarrow> fvec3 \<Rightarrow> fvec3" where
  "fp_vsub (u0, u1, u2) (v0, v1, v2) = (fsub u0 v0, fsub u1 v1, fsub u2 v2)"

fun fp_cross :: "fvec3 \<Rightarrow> fvec3 \<Rightarrow> fvec3" where
  "fp_cross (u0, u1, u2) (v0, v1, v2) =
     (fsub (fmul u1 v2) (fmul u2 v1), fsub (fmul u2 v0) (fmul u0 v2),
      fsub (fmul u0 v1) (fmul u1 v0))"

fun fp_magnitude :: "fvec3 \<Rightarrow> fp" where
  "fp_magnitude (u0, u1, u2) = fsqrt (fadd (fadd (fmul u0 u0) (fmul u1 u1)) (fmul u2 u2))"

definition fp_half_cross_magnitude :: "fvec3 \<Rightarrow> fvec3 \<Rightarrow> fvec3 \<Rightarrow> fp" where
  "fp_half_cross_magnitude a b c = fmul (Finite (1 / 2)) (fp_magnitude (fp_cross (fp_vsub b c) (fp_vsub c a)))"

text \<open>
  Three meshes for evaluation. In the first, the mapped position of node 0 is
  \<open>(2^-600, 0, 0)\<close>. In the second, the sphere positions are \<open>(0, 0, 0)\<close>,
  \<open>(0, 2^701, 2^701)\<close> and \<open>(0, 2^700, 2^700)\<close>. In the third, all coordinates
  are 0, 1 or -1 and node 3 is unmapped.
\<close>

definition underflow_grid :: SphericalTriGrid where
  "underflow_grid =
     \<lparr>elements = [\<lparr>refLevel = 0, corners = (0, 1, 2)\<rparr>],
      nodes = [example_node (1, 0, 0) (pow2 (- 600), 0, 0) 1 [0, 0, 0, 0, 0, 0] 0,
               example_node (0, 1, 0) (1, 0, 0) 1 [0, 0, 0, 0, 0, 0] 0,
               example_node (0, 0, 1) (0, 1, 0) 1 [0, 0, 0, 0, 0, 0] 0],
      rank = 0, isCouplingToCells = True\<rparr>"

definition overflow_grid :: SphericalTriGrid where
  "overflow_grid =
     \<lparr>elements = [\<lparr>refLevel = 0, corners = (0, 1, 2)\<rparr>],
      nodes = [example_node (0, 0, 0) (0, 0, 0) 1 [0, 0, 0, 0, 0, 0] 0,
               example_node (0, pow2 701, pow2 701) (0, 0, 0) 1 [0, 0, 0, 0, 0, 0] 0,
               example_node (0, pow2 700, pow2 700) (0, 0, 0) 1 [0, 0, 0, 0, 0, 0] 0],
      rank = 0, isCouplingToCells = True\<rparr>"

definition float_example_grid :: SphericalTriGrid where
  "float_example_grid =
     \<lparr>elements = [\<lparr>refLevel = 0, corners = (0, 1, 2)\<rparr>, \<lparr>refLevel = 0, corners = (0, 2, 3)\<rparr>],
      nodes = [example_node (1, 0, 0) (1, 0, 0) 2 [0, 1, 0, 0, 0, 0] 0,
               example_node (0, 1, 0) (0, 1, 0) 1 [0, 0, 0, 0, 0, 0] 0,
               example_node (- 1, 0, 0) (- 1, 0, 0) 2 [0, 1, 0, 0, 0, 0] 0,
               example_node (0, - 1, 0) (0, 0, 0) 1 [1, 0, 0, 0, 0, 0] 0],
      rank = 0, isCouplingToCells = True\<rparr>"

section \<open>Operations declared in ionosphere.h and defined elsewhere\<close>

text \<open>
  Modelled from the spec: \<open>addMatrixDependency(node1, node2, coeff, transposed)\<close>,
  declared in \<open>ionosphere.h\<close>; its body is in no file at hand. The specification
  gives each node a dependency list without duplicate target, with a forward and a
  transposed coefficient per entry, says that coefficients of a pair added more
  than once accumulate additively, and that the list has fixed capacity. So: look
  \<open>node2\<close> up among the first \<open>numDepNodes\<close> targets of \<open>node1\<close>; if it is there,
  add \<open>coeff\<close> to the coefficient of the requested direction; otherwise write a new
  entry behind the last one, with \<open>coeff\<close> in the requested direction and zero in
  the other. A node index outside the mesh and an entry beyond the arrays are
  faults.
\<close>

fun find_target :: "nat list \<Rightarrow> nat \<Rightarrow> nat \<Rightarrow> nat option" where
  "find_target [] node2 i = None"
| "find_target (d # ds) node2 i = (if d = node2 then Some i else find_target ds node2 (Suc i))"

definition addMatrixDependency ::
  "SphericalTriGrid \<Rightarrow> nat \<Rightarrow> nat \<Rightarrow> real \<Rightarrow> bool \<Rightarrow> fault + SphericalTriGrid" where
  "addMatrixDependency g node1 node2 coeff transposed =
     (case subscript (nodes g) node1 of Inl f \<Rightarrow> Inl f | Inr n \<Rightarrow>
      (case find_target (take (numDepNodes n) (dependingNodes n)) node2 0 of
         Some i \<Rightarrow>
           if transposed
           then (if i < length (transposedCoeffs n)
                 then Inr (g\<lparr>nodes := (nodes g)[node1 :=
                        n\<lparr>transposedCoeffs :=
                            (transposedCoeffs n)[i := transposedCoeffs n ! i + coeff]\<rparr>]\<rparr>)
                 else Inl OutOfBounds)
           else (if i < length (dependingCoeffs n)
                 then Inr (g\<lparr>nodes := (nodes g)[node1 :=
                        n\<lparr>dependingCoeffs :=
                            (dependingCoeffs n)[i := dependingCoeffs n ! i + coeff]\<rparr>]\<rparr>)
                 else Inl OutOfBounds)
       | None \<Rightarrow>
           let k = numDepNodes n in
           if k < length (dependingNodes n) \<and> k < length (dependingCoeffs n) \<and>
              k < length (transposedCoeffs n)
           then Inr (g\<lparr>nodes := (nodes g)[node1 :=
                  n\<lparr>dependingNodes := (dependingNodes n)[k := node2],
                    dependingCoeffs := (dependingCoeffs n)[k := (if transposed then 0 else coeff)],
                    transposedCoeffs := (transposedCoeffs n)[k := (if transposed then coeff else 0)],
                    numDepNodes := Suc k\<rparr>]\<rparr>)
           else Inl OutOfBounds))"

text \<open>The targets a node depends on: the first \<open>numDepNodes\<close> entries of its array.\<close>

definition dependencyTargets :: "Node \<Rightarrow> nat list" where
  "dependencyTargets n = take (numDepNodes n) (dependingNodes n)"

text \<open>
  The three dependency arrays of a node have the capacity
  \<open>MAX_DEPENDING_NODES\<close>, and the count is within it.
\<close>

definition dependency_arrays_ok :: "Node \<Rightarrow> bool" where
  "dependency_arrays_ok n \<longleftrightarrow>
     length (dependingNodes n) = MAX_DEPENDING_NODES \<and>
     length (dependingCoeffs n) = MAX_DEPENDING_NODES \<and>
     length (transposedCoeffs n) = MAX_DEPENDING_NODES \<and>
     numDepNodes n \<le> MAX_DEPENDING_NODES"

text \<open>
  The dependency graph is built from scratch: starting from a mesh in which every
  dependency list is empty, by calls of \<open>addMatrixDependency\<close> that return.
\<close>

inductive built_from :: "SphericalTriGrid \<Rightarrow> SphericalTriGrid \<Rightarrow> bool" for g0 where
  start: "\<forall>n \<in> set (nodes g0). numDepNodes n = 0 \<Longrightarrow> built_from g0 g0"
| add: "built_from g0 g \<Longrightarrow>
        addMatrixDependency g node1 node2 coeff transposed = Inr g' \<Longrightarrow>
        built_from g0 g'"






text \<open>
  The example mesh after node 0 has been given a dependency on node 1 with forward
  coefficient 2.
\<close>

definition example_linked :: SphericalTriGrid where
  "example_linked =
     example_grid\<lparr>nodes := (nodes example_grid)[0 :=
       (nodes example_grid ! 0)\<lparr>
          dependingNodes := (dependingNodes (nodes example_grid ! 0))[0 := 1],
          dependingCoeffs := (dependingCoeffs (nodes example_grid ! 0))[0 := 2],
          transposedCoeffs := (transposedCoeffs (nodes example_grid ! 0))[0 := 0],
          numDepNodes := Suc 0\<rparr>]\<rparr>"

section \<open>Properties of the block container\<close>

text \<open>
  C10. \<open>pop()\<close> on a container holding zero blocks returns the container as it
  is, so the size stays 0. On a container holding at least one block the number of
  blocks goes down by exactly one (as a number, without wrap-around), and the
  capacity, the block data vector and the parameters vector are the ones from
  before the call.
\<close>

theorem pop_frame:
  "(numberOfBlocks c = 0 \<longrightarrow> pop c = c \<and> size_vbc (pop c) = 0) \<and>
   (numberOfBlocks c \<noteq> 0 \<longrightarrow>
      unat (size_vbc (pop c)) + 1 = unat (size_vbc c) \<and>
      capacity (pop c) = capacity c \<and>
      block_data (pop c) = block_data c \<and>
      parameters (pop c) = parameters c)"
proof -
  have "numberOfBlocks c \<noteq> 0 \<Longrightarrow> unat (numberOfBlocks c - 1) + 1 = unat (numberOfBlocks c)"
    by (simp add: unat_minus_one unat_gt_0 Suc_leI)
  then show ?thesis
    by (simp add: pop_def size_vbc_def capacity_def)
qed

text \<open>C10 at an empty container and at a container with three blocks.\<close>

theorem pop_frame_witness:
  "pop \<lparr>currentCapacity = 4, numberOfBlocks = 0, block_data = [], parameters = []\<rparr>
     = \<lparr>currentCapacity = 4, numberOfBlocks = 0, block_data = [], parameters = []\<rparr> \<and>
   unat (size_vbc (pop \<lparr>currentCapacity = 4, numberOfBlocks = 3,
                        block_data = [1, 2], parameters = [5]\<rparr>)) + 1 = 3 \<and>
   block_data (pop \<lparr>currentCapacity = 4, numberOfBlocks = 3,
                    block_data = [1, 2], parameters = [5]\<rparr>) = [1, 2]"
  using pop_frame [of "\<lparr>currentCapacity = 4, numberOfBlocks = 0, block_data = [], parameters = []\<rparr>"]
        pop_frame [of "\<lparr>currentCapacity = 4, numberOfBlocks = 3,
                        block_data = [1, 2], parameters = [5]\<rparr>"]
  by (simp add: size_vbc_def)

text \<open>The copy loop, when both vectors are long enough, copies the first \<open>n\<close> values.\<close>

lemma copy_loop_from:
  "n \<le> length src \<Longrightarrow> n \<le> length dst \<Longrightarrow> i \<le> n \<Longrightarrow>
   copy_loop i n src dst = Inr (take i dst @ take (n - i) (drop i src) @ drop n dst)"
proof (induction i n src dst rule: copy_loop.induct)
  case (1 i n src dst)
  show ?case
  proof (cases "i < n")
    case False
    with "1.prems" show ?thesis by (subst copy_loop.simps) simp
  next
    case True
    with "1.prems" have b: "i < length src" "i < length dst" by simp_all
    let ?d = "dst[i := src ! i]"
    have ih: "copy_loop (Suc i) n src ?d
              = Inr (take (Suc i) ?d @ take (n - Suc i) (drop (Suc i) src) @ drop n ?d)"
      using "1.IH" [OF True] b "1.prems" True by simp
    have t1: "take (Suc i) ?d = take i dst @ [src ! i]"
      using b by (simp add: take_Suc_conv_app_nth)
    have t2: "take (n - i) (drop i src) = src ! i # take (n - Suc i) (drop (Suc i) src)"
    proof -
      have "drop i src = src ! i # drop (Suc i) src"
        using b by (simp add: Cons_nth_drop_Suc)
      moreover have "n - i = Suc (n - Suc i)" using True by simp
      ultimately show ?thesis by simp
    qed
    have t3: "drop n ?d = drop n dst" using True by simp
    show ?thesis
      using True b ih t1 t2 t3 by (subst copy_loop.simps) simp
  qed
qed

lemma copy_loop_all:
  "n \<le> length src \<Longrightarrow> n \<le> length dst \<Longrightarrow>
   copy_loop 0 n src dst = Inr (take n src @ drop n dst)"
  using copy_loop_from [of n src dst 0] by simp

lemma copy_into_fresh:
  assumes "k \<le> length src" and "k \<le> m"
  shows "\<exists>d. copy_loop 0 k src (replicate m 0) = Inr d \<and> length d = m \<and>
             (\<forall>i<k. d ! i = src ! i)"
proof -
  let ?d = "take k src @ drop k (replicate m (0::real))"
  have "copy_loop 0 k src (replicate m 0) = Inr ?d"
    using assms by (simp add: copy_loop_all)
  moreover have "length ?d = m" using assms by simp
  moreover have "\<forall>i<k. ?d ! i = src ! i" using assms by (simp add: nth_append)
  ultimately show ?thesis by blast
qed

lemma unat_mult_fits:
  fixes a b :: "32 word"
  assumes "unat a * unat b < 2 ^ 32"
  shows "unat (a * b) = unat a * unat b"
  using assms by (simp add: unat_word_ariths)

text \<open>
  C8, as stated, fails where the product of the requested capacity and the block
  size wraps around. With \<open>WID3 = 64\<close> and six parameters per block, a container
  holding one block and asked for \<open>2^26\<close> blocks allocates
  \<open>2^26 * 64 mod 2^32 = 0\<close> data values, and the copy loop then writes the 64
  values of the existing block behind the end of an empty vector: the call does
  not return true with the contents preserved.
\<close>

theorem recapacitate_wrap_counterexample:
  "vbc_wf 64 6 \<lparr>currentCapacity = 1, numberOfBlocks = 1,
                block_data = replicate 64 0, parameters = replicate 6 0\<rparr> \<and>
   \<not> 67108864 < numberOfBlocks \<lparr>currentCapacity = 1, numberOfBlocks = 1,
                block_data = replicate 64 0, parameters = replicate 6 0\<rparr> \<and>
   recapacitate 64 6 67108864
     \<lparr>currentCapacity = 1, numberOfBlocks = 1,
      block_data = replicate 64 0, parameters = replicate 6 0\<rparr> = Inl OutOfBounds"
  by (simp add: recapacitate_def vbc_wf_def copy_loop.simps [of 0] word_less_nat_alt)

text \<open>
  C8, amended. \<open>recapacitate(c)\<close> returns false and leaves the container as it is
  when \<open>c\<close> is smaller than the number of blocks. Otherwise, for a container that
  satisfies the storage invariant and a capacity \<open>c\<close> for which neither
  \<open>c * WID3\<close> nor \<open>c * N_VELOCITY_BLOCK_PARAMS\<close> wraps around, it returns true,
  the capacity is exactly \<open>c\<close>, the number of blocks is unchanged, the data and
  the parameters of every existing block are the ones from before the call, and
  the storage invariant holds again.
\<close>

theorem recapacitate_no_wrap:
  "(newCapacity < numberOfBlocks c \<longrightarrow>
      recapacitate W P newCapacity c = Inr (False, c)) \<and>
   (\<not> newCapacity < numberOfBlocks c \<and> vbc_wf W P c \<and>
    unat newCapacity * unat W < 2 ^ 32 \<and> unat newCapacity * unat P < 2 ^ 32 \<longrightarrow>
      (\<exists>c'. recapacitate W P newCapacity c = Inr (True, c') \<and>
            capacity c' = newCapacity \<and>
            size_vbc c' = size_vbc c \<and>
            (\<forall>i < unat (numberOfBlocks c) * unat W. block_data c' ! i = block_data c ! i) \<and>
            (\<forall>i < unat (numberOfBlocks c) * unat P. parameters c' ! i = parameters c ! i) \<and>
            vbc_wf W P c'))"
proof (intro conjI impI)
  assume "newCapacity < numberOfBlocks c"
  then show "recapacitate W P newCapacity c = Inr (False, c)"
    by (simp add: recapacitate_def)
next
  assume a: "\<not> newCapacity < numberOfBlocks c \<and> vbc_wf W P c \<and>
    unat newCapacity * unat W < 2 ^ 32 \<and> unat newCapacity * unat P < 2 ^ 32"
  let ?n = "unat (numberOfBlocks c)" and ?m = "unat newCapacity"
  from a have ge: "numberOfBlocks c \<le> newCapacity" by (simp add: not_less)
  then have nm: "?n \<le> ?m" by (simp add: word_le_nat_alt)
  from a have nc: "?n \<le> unat (currentCapacity c)"
    by (simp add: vbc_wf_def word_le_nat_alt)
  from a have lenD: "length (block_data c) = unat (currentCapacity c) * unat W"
    and lenP: "length (parameters c) = unat (currentCapacity c) * unat P"
    by (simp_all add: vbc_wf_def)
  from a have fitW: "?m * unat W < 2 ^ 32" and fitP: "?m * unat P < 2 ^ 32" by simp_all
  have nW: "?n * unat W \<le> ?m * unat W" and nP: "?n * unat P \<le> ?m * unat P"
    using nm by (simp_all add: mult_le_mono1)
  have uW: "unat (newCapacity * W) = ?m * unat W" and uP: "unat (newCapacity * P) = ?m * unat P"
    using fitW fitP by (simp_all add: unat_mult_fits)
  have vW: "unat (numberOfBlocks c * W) = ?n * unat W"
    using nW fitW by (intro unat_mult_fits) linarith
  have vP: "unat (numberOfBlocks c * P) = ?n * unat P"
    using nP fitP by (intro unat_mult_fits) linarith
  have srcW: "?n * unat W \<le> length (block_data c)"
    using nc lenD by (simp add: mult_le_mono1)
  have srcP: "?n * unat P \<le> length (parameters c)"
    using nc lenP by (simp add: mult_le_mono1)
  obtain d where d: "copy_loop 0 (?n * unat W) (block_data c) (replicate (?m * unat W) 0) = Inr d"
      "length d = ?m * unat W" "\<forall>i < ?n * unat W. d ! i = block_data c ! i"
    using copy_into_fresh [OF srcW nW] by blast
  obtain p where p: "copy_loop 0 (?n * unat P) (parameters c) (replicate (?m * unat P) 0) = Inr p"
      "length p = ?m * unat P" "\<forall>i < ?n * unat P. p ! i = parameters c ! i"
    using copy_into_fresh [OF srcP nP] by blast
  let ?c' = "c\<lparr>block_data := d, parameters := p, currentCapacity := newCapacity\<rparr>"
  have r: "recapacitate W P newCapacity c = Inr (True, ?c')"
    using a d(1) p(1) by (simp add: recapacitate_def uW uP vW vP)
  have wf': "vbc_wf W P ?c'"
    using ge d(2) p(2) by (simp add: vbc_wf_def)
  show "\<exists>c'. recapacitate W P newCapacity c = Inr (True, c') \<and>
            capacity c' = newCapacity \<and>
            size_vbc c' = size_vbc c \<and>
            (\<forall>i < unat (numberOfBlocks c) * unat W. block_data c' ! i = block_data c ! i) \<and>
            (\<forall>i < unat (numberOfBlocks c) * unat P. parameters c' ! i = parameters c ! i) \<and>
            vbc_wf W P c'"
    using r wf' d(3) p(3) by (intro exI [of _ ?c']) (simp add: capacity_def size_vbc_def)
qed

text \<open>
  The amended C8 on a container with one block of two data values and one
  parameter: shrinking below the size is refused, growing to two blocks succeeds.
\<close>

theorem recapacitate_no_wrap_witness:
  "recapacitate 2 1 0 \<lparr>currentCapacity = 1, numberOfBlocks = 1,
                       block_data = [7, 8], parameters = [9]\<rparr>
     = Inr (False, \<lparr>currentCapacity = 1, numberOfBlocks = 1,
                    block_data = [7, 8], parameters = [9]\<rparr>) \<and>
   vbc_wf 2 1 \<lparr>currentCapacity = 1, numberOfBlocks = 1,
               block_data = [7, 8], parameters = [9]\<rparr> \<and>
   unat (2 :: lid) * unat (2 :: lid) < 2 ^ 32 \<and> unat (2 :: lid) * unat (1 :: lid) < 2 ^ 32 \<and>
   (\<exists>c'. recapacitate 2 1 2 \<lparr>currentCapacity = 1, numberOfBlocks = 1,
                             block_data = [7, 8], parameters = [9]\<rparr> = Inr (True, c') \<and>
         capacity c' = 2 \<and> size_vbc c' = 1 \<and>
         block_data c' ! 0 = 7 \<and> block_data c' ! 1 = 8 \<and> parameters c' ! 0 = 9 \<and>
         vbc_wf 2 1 c')"
proof -
  let ?c = "\<lparr>currentCapacity = 1 :: lid, numberOfBlocks = 1 :: lid,
             block_data = [7, 8 :: real], parameters = [9 :: real]\<rparr>"
  have lt: "(0 :: lid) < numberOfBlocks ?c" by simp
  have wf: "vbc_wf 2 1 ?c" by (simp add: vbc_wf_def)
  have fit: "unat (2 :: lid) * unat (2 :: lid) < 2 ^ 32" "unat (2 :: lid) * unat (1 :: lid) < 2 ^ 32"
    by simp_all
  have ge: "\<not> (2 :: lid) < numberOfBlocks ?c" by (simp add: word_less_nat_alt)
  from recapacitate_no_wrap [of 0 ?c 2 1] lt
  have refuse: "recapacitate 2 1 0 ?c = Inr (False, ?c)" by blast
  from recapacitate_no_wrap [of 2 ?c 2 1] ge wf fit
  obtain c' where c': "recapacitate 2 1 2 ?c = Inr (True, c')" "capacity c' = 2"
      "size_vbc c' = size_vbc ?c"
      "\<forall>i < unat (numberOfBlocks ?c) * unat (2 :: lid). block_data c' ! i = block_data ?c ! i"
      "\<forall>i < unat (numberOfBlocks ?c) * unat (1 :: lid). parameters c' ! i = parameters ?c ! i"
      "vbc_wf 2 1 c'"
    by blast
  from c'(4) have "block_data c' ! 0 = 7" "block_data c' ! 1 = 8" by simp_all
  moreover from c'(5) have "parameters c' ! 0 = 9" by simp
  moreover from c'(3) have "size_vbc c' = 1" by (simp add: size_vbc_def)
  ultimately show ?thesis using refuse wf fit c'(1,2,6) by blast
qed

section \<open>Properties of the velocity mesh indices\<close>

lemma decompose_nat:
  fixes x :: nat
  shows "x mod a + (x div a) mod b * a + x div (a * b) * a * b = x"
proof -
  have "x div (a * b) = (x div a) div b" by (simp add: div_mult2_eq)
  then have "(x div a) mod b + x div (a * b) * b = x div a" by simp
  then have "((x div a) mod b + x div (a * b) * b) * a = (x div a) * a" by simp
  then have "(x div a) mod b * a + x div (a * b) * a * b = (x div a) * a"
    by (simp add: algebra_simps)
  moreover have "x mod a + (x div a) * a = x" by simp
  ultimately show ?thesis by linarith
qed

lemma below_bound_not_error:
  fixes i g :: "32 word"
  assumes "i < g"
  shows "i \<noteq> 0xFFFFFFFF"
proof
  assume "i = 0xFFFFFFFF"
  with assms have "unat (0xFFFFFFFF :: 32 word) < unat g" by (simp add: word_less_nat_alt)
  moreover have "unat g < 2 ^ 32" using unsigned_less [of g] by simp
  ultimately show False by simp
qed

text \<open>
  C9, as stated, fails where the product of the grid lengths wraps around. For the
  grid lengths \<open>(65536, 65537, 2)\<close> the 32-bit product \<open>gridLength[0]*gridLength[1]\<close>
  is \<open>65536\<close> and \<open>max_velocity_blocks\<close> is \<open>131072\<close>. The global ID \<open>65536\<close> is
  below it and decomposes into \<open>(0, 1, 1)\<close>, which encodes to \<open>131072\<close>.
\<close>

theorem getIndices_getGlobalID_wrap_counterexample:
  "max_velocity_blocks (snd (initialize (65536, 65537, 2) (4, 4, 4))) = 131072 \<and>
   getIndices (snd (initialize (65536, 65537, 2) (4, 4, 4))) 65536 = Inr (0, 0, 1, 1) \<and>
   getGlobalID (snd (initialize (65536, 65537, 2) (4, 4, 4))) 0 0 1 1 = 131072"
  by (simp add: getIndices_def getGlobalID_def word_le_nat_alt)

text \<open>
  C9, amended. For a mesh set up by \<open>initialize\<close> with grid lengths whose product
  fits into 32 bits, and for every global ID below \<open>max_velocity_blocks\<close>,
  \<open>getIndices\<close> divides by no zero, sets the refinement level to 0 and yields
  indices \<open>i, j, k\<close> none of which is \<open>error_velocity_block_index\<close>, and
  \<open>getGlobalID\<close> of that level and those indices is the global ID again.
\<close>

theorem getIndices_getGlobalID_no_wrap:
  assumes fits: "unat g0 * unat g1 * unat g2 < 2 ^ 32"
    and init: "initialize (g0, g1, g2) bl = (ok, m)"
    and below: "globalID < max_velocity_blocks m"
  shows "\<exists>i j k. getIndices m globalID = Inr (0, i, j, k) \<and>
           getGlobalID m 0 i j k = globalID \<and>
           i \<noteq> error_velocity_block_index \<and>
           j \<noteq> error_velocity_block_index \<and>
           k \<noteq> error_velocity_block_index"
proof -
  obtain b0 b1 b2 where bl: "bl = (b0, b1, b2)" by (cases bl) auto
  from init bl have m: "gridLength m = (g0, g1, g2)" "max_velocity_blocks m = g0 * g1 * g2"
    by auto
  let ?G0 = "unat g0" and ?G1 = "unat g1" and ?G2 = "unat g2" and ?x = "unat globalID"
  have "unat (g0 * g1 * g2) = (?G0 * ?G1 * ?G2) mod 2 ^ 32"
    by (simp add: unat_word_ariths mod_mult_left_eq)
  with fits have umax: "unat (g0 * g1 * g2) = ?G0 * ?G1 * ?G2" by simp
  from below m umax have x: "?x < ?G0 * ?G1 * ?G2" by (simp add: word_less_nat_alt)
  then have pos: "0 < ?G0" "0 < ?G1" "0 < ?G2" by (auto intro: Nat.gr0I)
  have "?G0 * ?G1 \<le> ?G0 * ?G1 * ?G2" using pos by simp
  with fits have fits01: "?G0 * ?G1 < 2 ^ 32" by linarith
  then have u01: "unat (g0 * g1) = ?G0 * ?G1" by (rule unat_mult_fits)
  have nz: "g0 \<noteq> 0" "g1 \<noteq> 0" "g0 * g1 \<noteq> 0"
    using pos u01 by (auto simp: unat_eq_0 [symmetric] simp del: unat_eq_0)
  let ?i = "globalID mod g0" and ?j = "(globalID div g0) mod g1" and ?k = "globalID div (g0 * g1)"
  have ui: "unat ?i = ?x mod ?G0" by (simp add: unat_mod)
  have uj: "unat ?j = (?x div ?G0) mod ?G1" by (simp add: unat_mod unat_div)
  have uk: "unat ?k = ?x div (?G0 * ?G1)" by (simp add: unat_div u01)
  have li: "?i < g0" using pos by (simp add: word_less_nat_alt ui)
  have lj: "?j < g1" using pos by (simp add: word_less_nat_alt uj)
  have "?x div (?G0 * ?G1) < ?G2"
    using x pos by (simp add: less_mult_imp_div_less mult.commute)
  then have lk: "?k < g2" by (simp add: word_less_nat_alt uk)
  have get: "getIndices m globalID = Inr (0, ?i, ?j, ?k)"
    using below m nz by (simp add: getIndices_def not_le [symmetric] del: not_le)
  have "?i + ?j * g0 + ?k * g0 * g1
        = of_nat (unat ?i) + of_nat (unat ?j) * of_nat ?G0
          + of_nat (unat ?k) * of_nat ?G0 * of_nat ?G1"
    by simp
  also have "\<dots> = (of_nat (?x mod ?G0 + (?x div ?G0) mod ?G1 * ?G0
                        + ?x div (?G0 * ?G1) * ?G0 * ?G1) :: 32 word)"
    by (simp only: ui uj uk of_nat_add of_nat_mult)
  also have "\<dots> = of_nat ?x" by (simp only: decompose_nat)
  finally have enc: "?i + ?j * g0 + ?k * g0 * g1 = globalID" by simp
  have reenc: "getGlobalID m 0 ?i ?j ?k = globalID"
    using li lj lk m enc by (simp add: getGlobalID_def not_le [symmetric] del: not_le)
  have "?i \<noteq> error_velocity_block_index" "?j \<noteq> error_velocity_block_index"
       "?k \<noteq> error_velocity_block_index"
    unfolding error_velocity_block_index_def
    using li lj lk by (simp_all add: below_bound_not_error)
  with get reenc show ?thesis by blast
qed

text \<open>
  The amended C9 on the grid \<open>2 \<times> 3 \<times> 4\<close> at the global ID 17, which is the
  block \<open>(1, 2, 2)\<close>.
\<close>

theorem getIndices_getGlobalID_no_wrap_witness:
  "unat (2 :: lid) * unat (3 :: lid) * unat (4 :: lid) < 2 ^ 32 \<and>
   initialize (2, 3, 4) (4, 4, 4)
     = (True, \<lparr>max_velocity_blocks = 24, blockLength = (4, 4, 4), gridLength = (2, 3, 4)\<rparr>) \<and>
   (17 :: gid) < max_velocity_blocks
       \<lparr>max_velocity_blocks = 24, blockLength = (4, 4, 4), gridLength = (2, 3, 4)\<rparr> \<and>
   getIndices \<lparr>max_velocity_blocks = 24, blockLength = (4, 4, 4), gridLength = (2, 3, 4)\<rparr> 17
     = Inr (0, 1, 2, 2) \<and>
   getGlobalID \<lparr>max_velocity_blocks = 24, blockLength = (4, 4, 4), gridLength = (2, 3, 4)\<rparr>
     0 1 2 2 = 17"
proof -
  let ?m = "\<lparr>max_velocity_blocks = 24 :: lid, blockLength = (4 :: lid, 4 :: lid, 4 :: lid),
             gridLength = (2 :: gid, 3 :: gid, 4 :: gid)\<rparr>"
  have fits: "unat (2 :: lid) * unat (3 :: lid) * unat (4 :: lid) < 2 ^ 32" by simp
  have init: "initialize (2, 3, 4) (4, 4, 4) = (True, ?m)" by simp
  have below: "(17 :: gid) < max_velocity_blocks ?m" by (simp add: word_less_nat_alt)
  from getIndices_getGlobalID_no_wrap [OF fits init below]
  obtain i j k where r: "getIndices ?m 17 = Inr (0, i, j, k)" "getGlobalID ?m 0 i j k = 17"
    by blast
  have "getIndices ?m 17 = Inr (0, 1, 2, 2)"
    by (simp add: getIndices_def word_le_nat_alt)
  with r have "getGlobalID ?m 0 1 2 2 = 17" "getIndices ?m 17 = Inr (0, 1, 2, 2)" by simp_all
  with fits init below show ?thesis by blast
qed

section \<open>Properties of the geometry kernel\<close>

lemma elementArea_formula:
  assumes "valid_element g e"
  shows "elementArea g e = Inr (sphereArea g e)"
proof -
  obtain c0 c1 c2 where c: "corners (elements g ! e) = (c0, c1, c2)"
    by (cases "corners (elements g ! e)") auto
  obtain a0 a1 a2 where a: "x_pos (nodes g ! c0) = (a0, a1, a2)"
    by (cases "x_pos (nodes g ! c0)") auto
  obtain b0 b1 b2 where b: "x_pos (nodes g ! c1) = (b0, b1, b2)"
    by (cases "x_pos (nodes g ! c1)") auto
  obtain d0 d1 d2 where d: "x_pos (nodes g ! c2) = (d0, d1, d2)"
    by (cases "x_pos (nodes g ! c2)") auto
  from assms c have r: "e < length (elements g)" "c0 < length (nodes g)"
      "c1 < length (nodes g)" "c2 < length (nodes g)"
    by (simp_all add: valid_element_def)
  show ?thesis
    using r c a b d
    by (simp add: elementArea_def subscript_def half_cross_magnitude_def sphereArea_def
        corner0_def corner1_def corner2_def Let_def power2_eq_square)
qed

subsection \<open>Rounding\<close>

lemma pow2_pos: "0 < pow2 k"
  by (simp add: pow2_def)

lemma pow2_mono: "a \<le> b \<Longrightarrow> pow2 a \<le> pow2 b"
  unfolding pow2_def by (rule power_int_increasing) simp_all

lemma pow2_add: "pow2 (a + b) = pow2 a * pow2 b"
  unfolding pow2_def by (simp add: power_int_add)

lemma pow2_0: "pow2 0 = 1"
  by (simp add: pow2_def)

lemma pow2_1: "pow2 1 = 2"
  by (simp add: pow2_def)

lemma round_half_even_nonneg: "0 \<le> r \<Longrightarrow> 0 \<le> round_half_even r"
  by (auto simp: round_half_even_def Let_def)

lemma round_half_even_small: "0 \<le> r \<Longrightarrow> r < 1 / 2 \<Longrightarrow> round_half_even r = 0"
proof -
  assume a: "0 \<le> r" "r < 1 / 2"
  then have "\<lfloor>r\<rfloor> = 0" by (simp add: floor_eq_iff)
  with a show ?thesis by (simp add: round_half_even_def)
qed

lemma round_half_even_int: "round_half_even (of_int n) = n"
  by (simp add: round_half_even_def)

lemma rnd_nonneg:
  assumes "0 \<le> x"
  shows "rnd x = PlusInfinity \<or> (\<exists>y\<ge>0. rnd x = Finite y)"
proof (cases "x = 0")
  case True
  then show ?thesis by (simp add: rnd_def)
next
  case False
  with assms have p: "0 < x" by simp
  show ?thesis
  proof (cases "(2 - pow2 (- 53)) * pow2 1023 \<le> \<bar>x\<bar>")
    case True
    with p show ?thesis by (simp add: rnd_def)
  next
    case nb: False
    define e where "e = (if \<bar>x\<bar> < pow2 (- 1022) then - 1022 else \<lfloor>log 2 \<bar>x\<bar>\<rfloor>)"
    have "0 \<le> round_half_even (\<bar>x\<bar> / pow2 (e - 52))"
      using pow2_pos [of "e - 52"] by (intro round_half_even_nonneg) simp
    then have "0 \<le> sgn x * of_int (round_half_even (\<bar>x\<bar> / pow2 (e - 52))) * pow2 (e - 52)"
      using p pow2_pos [of "e - 52"] by simp
    moreover have "rnd x = Finite (sgn x * of_int (round_half_even (\<bar>x\<bar> / pow2 (e - 52))) * pow2 (e - 52))"
      using False nb by (simp add: rnd_def e_def Let_def)
    ultimately show ?thesis by blast
  qed
qed

lemma rnd_underflow:
  assumes "\<bar>x\<bar> < pow2 (- 1075)"
  shows "rnd x = Finite 0"
proof (cases "x = 0")
  case True
  then show ?thesis by (simp add: rnd_def)
next
  case False
  have lt: "pow2 (- 1075) < pow2 (- 1022)" by (simp add: pow2_def)
  have big: "pow2 (- 1022) \<le> (2 - pow2 (- 53)) * pow2 1023" by (simp add: pow2_def)
  from assms lt have sub: "\<bar>x\<bar> < pow2 (- 1022)" by linarith
  with big have nb: "\<not> (2 - pow2 (- 53)) * pow2 1023 \<le> \<bar>x\<bar>" by linarith
  define h where "h = pow2 (- 1075)"
  have h: "0 < h" "\<bar>x\<bar> < h" using assms pow2_pos [of "- 1075"] by (simp_all add: h_def)
  have q: "pow2 (- 1074) = 2 * h"
    using pow2_add [of 1 "- 1075"] by (simp add: pow2_1 h_def)
  have "\<bar>x\<bar> / (2 * h) < 1 / 2" using h by (simp add: field_simps)
  then have "round_half_even (\<bar>x\<bar> / pow2 (- 1074)) = 0"
    unfolding q by (intro round_half_even_small) (use h in simp_all)
  then show ?thesis using False nb sub by (simp add: rnd_def Let_def)
qed

lemma rnd_overflow:
  assumes "pow2 1024 \<le> x"
  shows "rnd x = PlusInfinity"
proof -
  have "(2 - pow2 (- 53)) * pow2 1023 \<le> pow2 1024" by (simp add: pow2_def)
  moreover have "0 < pow2 1024" by (rule pow2_pos)
  ultimately have "(2 - pow2 (- 53)) * pow2 1023 \<le> \<bar>x\<bar>" "0 < x" "x \<noteq> 0"
    using assms by linarith+
  then show ?thesis by (simp add: rnd_def)
qed

lemma rnd_pow2:
  assumes "- 1022 \<le> k" and "k \<le> 1023"
  shows "rnd (pow2 k) = Finite (pow2 k)"
proof -
  have p: "0 < pow2 k" by (rule pow2_pos)
  have "pow2 k \<le> pow2 1023" using assms by (intro pow2_mono)
  moreover have "pow2 1023 < (2 - pow2 (- 53)) * pow2 1023" by (simp add: pow2_def)
  ultimately have nb: "\<not> (2 - pow2 (- 53)) * pow2 1023 \<le> \<bar>pow2 k\<bar>" using p by linarith
  have "pow2 (- 1022) \<le> pow2 k" using assms by (intro pow2_mono)
  with p have ns: "\<not> \<bar>pow2 k\<bar> < pow2 (- 1022)" by simp
  have "pow2 k = 2 powr of_int k"
    by (simp add: pow2_def powr_real_of_int')
  then have "log 2 (pow2 k) = of_int k" by simp
  then have e: "\<lfloor>log 2 \<bar>pow2 k\<bar>\<rfloor> = k" using p by simp
  have "pow2 k / pow2 (k - 52) = of_int (2 ^ 52)"
    by (simp add: pow2_def power_int_diff)
  then have m: "round_half_even (\<bar>pow2 k\<bar> / pow2 (k - 52)) = 2 ^ 52"
    using p round_half_even_int [of "2 ^ 52"] by simp
  have "of_int (2 ^ 52) * pow2 (k - 52) = pow2 k"
    by (simp add: pow2_def power_int_diff)
  then show ?thesis
    using p nb ns e m by (simp add: rnd_def Let_def)
qed

lemma rnd_minus: "rnd (- x) = (case rnd x of Finite y \<Rightarrow> Finite (- y)
     | PlusInfinity \<Rightarrow> MinusInfinity | MinusInfinity \<Rightarrow> PlusInfinity | NaN \<Rightarrow> NaN)"
  by (simp add: rnd_def Let_def sgn_if)

lemma pow2_strict_mono: "a < b \<Longrightarrow> pow2 a < pow2 b"
  unfolding pow2_def by (rule power_int_strict_increasing) simp_all

lemma rnd_0: "rnd 0 = Finite 0"
  by (simp add: rnd_def)

lemma rnd_1: "rnd 1 = Finite 1"
  using rnd_pow2 [of 0] by (simp add: pow2_0)

lemma rnd_square_underflow:
  assumes "k \<le> - 538"
  shows "rnd (pow2 k * pow2 k) = Finite 0"
proof -
  have "pow2 k * pow2 k = pow2 (k + k)" by (rule pow2_add [symmetric])
  moreover have "pow2 (k + k) < pow2 (- 1075)" using assms by (intro pow2_strict_mono) simp
  moreover have "0 < pow2 (k + k)" by (rule pow2_pos)
  ultimately have "\<bar>pow2 k * pow2 k\<bar> < pow2 (- 1075)" by simp
  then show ?thesis by (rule rnd_underflow)
qed

lemma rnd_square_overflow:
  assumes "512 \<le> k"
  shows "rnd (pow2 k * pow2 k) = PlusInfinity"
proof -
  have "pow2 k * pow2 k = pow2 (k + k)" by (rule pow2_add [symmetric])
  moreover have "pow2 1024 \<le> pow2 (k + k)" using assms by (intro pow2_mono) simp
  ultimately have "pow2 1024 \<le> pow2 k * pow2 k" by simp
  then show ?thesis by (rule rnd_overflow)
qed

subsection \<open>The areas in the arithmetic of the code\<close>

lemma zero_vector_magnitude: "fp_magnitude (stored (0, 0, 0)) = Finite 0"
  by (simp add: rnd_0)

lemma mappedElementArea_unfold:
  assumes "valid_element g e"
  shows "mappedElementArea g e
         = Inr (if feq (fp_magnitude (stored (xMapped (corner0 g e)))) (Finite 0) \<or>
                   feq (fp_magnitude (stored (xMapped (corner1 g e)))) (Finite 0) \<or>
                   feq (fp_magnitude (stored (xMapped (corner2 g e)))) (Finite 0)
                then Finite 0
                else fp_half_cross_magnitude (stored (xMapped (corner0 g e)))
                       (stored (xMapped (corner1 g e))) (stored (xMapped (corner2 g e))))"
proof -
  obtain c0 c1 c2 where c: "corners (elements g ! e) = (c0, c1, c2)"
    by (cases "corners (elements g ! e)") auto
  obtain a0 a1 a2 where a: "xMapped (nodes g ! c0) = (a0, a1, a2)"
    by (cases "xMapped (nodes g ! c0)") auto
  obtain b0 b1 b2 where b: "xMapped (nodes g ! c1) = (b0, b1, b2)"
    by (cases "xMapped (nodes g ! c1)") auto
  obtain d0 d1 d2 where d: "xMapped (nodes g ! c2) = (d0, d1, d2)"
    by (cases "xMapped (nodes g ! c2)") auto
  from assms c have r: "e < length (elements g)" "c0 < length (nodes g)"
      "c1 < length (nodes g)" "c2 < length (nodes g)"
    by (simp_all add: valid_element_def)
  show ?thesis
    using r c a b d
    by (simp add: mappedElementArea_def subscript_def fp_half_cross_magnitude_def corner0_def
        corner1_def corner2_def Let_def)
qed

lemma float_example_valid:
  "valid_element float_example_grid 0" "valid_element float_example_grid (Suc 0)"
  by (simp_all add: valid_element_def float_example_grid_def)

lemma rnd_small_integers:
  "rnd 2 = Finite 2" "rnd 4 = Finite 4" "rnd (- 1) = Finite (- 1)" "rnd (- 2) = Finite (- 2)"
proof -
  have p: "pow2 1 = 2" "pow2 2 = 4" by (simp_all add: pow2_def)
  show 2: "rnd 2 = Finite 2" using rnd_pow2 [of 1] by (simp add: p)
  show "rnd 4 = Finite 4" using rnd_pow2 [of 2] by (simp add: p)
  show "rnd (- 1) = Finite (- 1)" by (simp add: rnd_minus rnd_1)
  show "rnd (- 2) = Finite (- 2)" by (simp add: rnd_minus 2)
qed

text \<open>
  C1, as stated, fails where the squares of a mapped position underflow. The
  mapped position \<open>(2^-600, 0, 0)\<close> is not the zero vector, and with the other
  corners at \<open>(1, 0, 0)\<close> and \<open>(0, 1, 0)\<close> half the magnitude of the cross
  product is \<open>(1 - 2^-600) / 2\<close>. But \<open>2^-600 * 2^-600\<close> rounds to zero, the
  test \<open>sqrt(...) == 0\<close> holds, and the code returns 0.
\<close>

theorem mappedElementArea_underflow_counterexample:
  "valid_element underflow_grid 0 \<and>
   xMapped (corner0 underflow_grid 0) = (pow2 (- 600), 0, 0) \<and>
   pow2 (- 600) \<noteq> 0 \<and>
   xMapped (corner1 underflow_grid 0) = (1, 0, 0) \<and>
   xMapped (corner2 underflow_grid 0) = (0, 1, 0) \<and>
   half_cross_magnitude (pow2 (- 600), 0, 0) (1, 0, 0) (0, 1, 0) = (1 - pow2 (- 600)) / 2 \<and>
   0 < (1 - pow2 (- 600)) / 2 \<and>
   mappedElementArea underflow_grid 0 = Inr (Finite 0)"
proof -
  have v: "valid_element underflow_grid 0"
    by (simp add: valid_element_def underflow_grid_def)
  have c: "xMapped (corner0 underflow_grid 0) = (pow2 (- 600), 0, 0)"
      "xMapped (corner1 underflow_grid 0) = (1, 0, 0)"
      "xMapped (corner2 underflow_grid 0) = (0, 1, 0)"
    by (simp_all add: underflow_grid_def example_node_def corner0_def corner1_def corner2_def)
  have p: "0 < pow2 (- 600)" by (rule pow2_pos)
  have "pow2 (- 600) < pow2 0" by (intro pow2_strict_mono) simp
  then have lt: "pow2 (- 600) < 1" by (simp add: pow2_0)
  have h: "half_cross_magnitude (pow2 (- 600), 0, 0) (1, 0, 0) (0, 1, 0) = (1 - pow2 (- 600)) / 2"
    using lt by (simp add: half_cross_magnitude_def)
  have "fp_magnitude (stored (pow2 (- 600), 0, 0)) = Finite 0"
    by (simp add: rnd_square_underflow rnd_0)
  with mappedElementArea_unfold [OF v] c
  have "mappedElementArea underflow_grid 0 = Inr (Finite 0)" by simp
  with v c p lt h show ?thesis by simp
qed

text \<open>
  C1, amended. For every element index that is valid in the mesh,
  \<open>mappedElementArea\<close> returns 0 if for one of the three corners the value of
  \<open>sqrt(a[0]*a[0] + a[1]*a[1] + a[2]*a[2])\<close> computed in double arithmetic from
  its mapped position is zero, and otherwise half the magnitude of the cross
  product of \<open>b - c\<close> and \<open>c - a\<close> computed in double arithmetic. In
  particular it returns 0 if the mapped position of a corner is exactly the zero
  vector.
\<close>

theorem mappedElementArea_zero_test_or_half_cross:
  assumes "valid_element g e"
  shows "mappedElementArea g e
         = Inr (if feq (fp_magnitude (stored (xMapped (corner0 g e)))) (Finite 0) \<or>
                   feq (fp_magnitude (stored (xMapped (corner1 g e)))) (Finite 0) \<or>
                   feq (fp_magnitude (stored (xMapped (corner2 g e)))) (Finite 0)
                then Finite 0
                else fp_half_cross_magnitude (stored (xMapped (corner0 g e)))
                       (stored (xMapped (corner1 g e))) (stored (xMapped (corner2 g e)))) \<and>
         (xMapped (corner0 g e) = (0, 0, 0) \<or> xMapped (corner1 g e) = (0, 0, 0) \<or>
          xMapped (corner2 g e) = (0, 0, 0) \<longrightarrow>
            mappedElementArea g e = Inr (Finite 0))"
proof -
  note u = mappedElementArea_unfold [OF assms]
  have "mappedElementArea g e = Inr (Finite 0)"
    if "xMapped (corner0 g e) = (0, 0, 0) \<or> xMapped (corner1 g e) = (0, 0, 0) \<or>
        xMapped (corner2 g e) = (0, 0, 0)"
  proof -
    from that have "feq (fp_magnitude (stored (xMapped (corner0 g e)))) (Finite 0) \<or>
                   feq (fp_magnitude (stored (xMapped (corner1 g e)))) (Finite 0) \<or>
                   feq (fp_magnitude (stored (xMapped (corner2 g e)))) (Finite 0)"
      using zero_vector_magnitude by auto
    with u show ?thesis by simp
  qed
  with u show ?thesis by blast
qed

text \<open>
  The amended C1 on the third mesh: element 0 has three mapped corners and mapped
  area 1; element 1 has the unmapped node 3 as a corner and mapped area 0.
\<close>

theorem mappedElementArea_zero_test_or_half_cross_witness:
  "valid_element float_example_grid 0 \<and> valid_element float_example_grid 1 \<and>
   mappedElementArea float_example_grid 0 = Inr (Finite 1) \<and>
   xMapped (corner2 float_example_grid 1) = (0, 0, 0) \<and>
   mappedElementArea float_example_grid 1 = Inr (Finite 0)"
proof -
  have v: "valid_element float_example_grid 0" "valid_element float_example_grid 1"
    using float_example_valid by simp_all
  have z: "xMapped (corner2 float_example_grid 1) = (0, 0, 0)"
    by (simp add: float_example_grid_def example_node_def corner2_def)
  from mappedElementArea_zero_test_or_half_cross [OF v(2)] z
  have e1: "mappedElementArea float_example_grid 1 = Inr (Finite 0)" by blast
  have c: "xMapped (corner0 float_example_grid 0) = (1, 0, 0)"
      "xMapped (corner1 float_example_grid 0) = (0, 1, 0)"
      "xMapped (corner2 float_example_grid 0) = (- 1, 0, 0)"
    by (simp_all add: float_example_grid_def example_node_def corner0_def corner1_def corner2_def)
  from mappedElementArea_zero_test_or_half_cross [OF v(1)]
  have e0: "mappedElementArea float_example_grid 0 = Inr (Finite 1)"
    by (simp add: c fp_half_cross_magnitude_def fsub_def rnd_0 rnd_1 rnd_small_integers)
  from v z e0 e1 show ?thesis by simp
qed

lemma elementArea_fp_unfold:
  assumes "valid_element g e"
  shows "elementArea_fp g e
         = Inr (fp_half_cross_magnitude (stored (x_pos (corner0 g e)))
                  (stored (x_pos (corner1 g e))) (stored (x_pos (corner2 g e))))"
proof -
  obtain c0 c1 c2 where c: "corners (elements g ! e) = (c0, c1, c2)"
    by (cases "corners (elements g ! e)") auto
  obtain a0 a1 a2 where a: "x_pos (nodes g ! c0) = (a0, a1, a2)"
    by (cases "x_pos (nodes g ! c0)") auto
  obtain b0 b1 b2 where b: "x_pos (nodes g ! c1) = (b0, b1, b2)"
    by (cases "x_pos (nodes g ! c1)") auto
  obtain d0 d1 d2 where d: "x_pos (nodes g ! c2) = (d0, d1, d2)"
    by (cases "x_pos (nodes g ! c2)") auto
  from assms c have r: "e < length (elements g)" "c0 < length (nodes g)"
      "c1 < length (nodes g)" "c2 < length (nodes g)"
    by (simp_all add: valid_element_def)
  show ?thesis
    using r c a b d
    by (simp add: elementArea_fp_def subscript_def fp_half_cross_magnitude_def corner0_def
        corner1_def corner2_def Let_def)
qed

lemma fsqrt_not_negative:
  "fsqrt s = NaN \<or> fsqrt s = PlusInfinity \<or> (\<exists>y\<ge>0. fsqrt s = Finite y)"
proof (cases s)
  case (Finite x)
  show ?thesis
  proof (cases "x < 0")
    case True
    with Finite show ?thesis by simp
  next
    case False
    then have "0 \<le> sqrt x" by simp
    from rnd_nonneg [OF this] Finite False show ?thesis by auto
  qed
qed simp_all

lemma half_not_negative:
  assumes "t = NaN \<or> t = PlusInfinity \<or> (\<exists>y\<ge>0. t = Finite y)"
  shows "fmul (Finite (1 / 2)) t = NaN \<or> fge (fmul (Finite (1 / 2)) t) (Finite 0)"
proof -
  from assms consider "t = NaN" | "t = PlusInfinity" | y where "0 \<le> y" "t = Finite y" by blast
  then show ?thesis
  proof cases
    case 1
    then show ?thesis by simp
  next
    case 2
    then show ?thesis by simp
  next
    case 3
    then have "0 \<le> 1 / 2 * y" by simp
    from rnd_nonneg [OF this] 3 show ?thesis by auto
  qed
qed

text \<open>
  C2, as stated, fails where a product overflows. For the sphere positions
  \<open>(0, 0, 0)\<close>, \<open>(0, 2^701, 2^701)\<close> and \<open>(0, 2^700, 2^700)\<close> both edge
  vectors are \<open>(0, 2^700, 2^700)\<close>, the two products of the first component of
  the area vector are infinite, their difference is NaN, and the code returns
  NaN, which is not \<open>>= 0\<close>.
\<close>

theorem elementArea_overflow_counterexample:
  "valid_element overflow_grid 0 \<and>
   x_pos (corner0 overflow_grid 0) = (0, 0, 0) \<and>
   x_pos (corner1 overflow_grid 0) = (0, pow2 701, pow2 701) \<and>
   x_pos (corner2 overflow_grid 0) = (0, pow2 700, pow2 700) \<and>
   elementArea_fp overflow_grid 0 = Inr NaN \<and>
   \<not> fge NaN (Finite 0)"
proof -
  have v: "valid_element overflow_grid 0"
    by (simp add: valid_element_def overflow_grid_def)
  have c: "x_pos (corner0 overflow_grid 0) = (0, 0, 0)"
      "x_pos (corner1 overflow_grid 0) = (0, pow2 701, pow2 701)"
      "x_pos (corner2 overflow_grid 0) = (0, pow2 700, pow2 700)"
    by (simp_all add: overflow_grid_def example_node_def corner0_def corner1_def corner2_def)
  have "pow2 701 = 2 * pow2 700" using pow2_add [of 1 700] by (simp add: pow2_1)
  then have d: "pow2 701 - pow2 700 = pow2 700" by simp
  have r: "rnd (pow2 700) = Finite (pow2 700)" by (rule rnd_pow2) simp_all
  have o: "rnd (pow2 700 * pow2 700) = PlusInfinity" by (rule rnd_square_overflow) simp
  have "fp_half_cross_magnitude (stored (0, 0, 0)) (stored (0, pow2 701, pow2 701))
          (stored (0, pow2 700, pow2 700)) = NaN"
    by (simp add: fp_half_cross_magnitude_def fsub_def d r o rnd_0)
  with elementArea_fp_unfold [OF v] c have "elementArea_fp overflow_grid 0 = Inr NaN" by simp
  with v c show ?thesis by simp
qed

text \<open>
  C2, amended. For every element index that is valid in the mesh,
  \<open>elementArea\<close> returns half the magnitude of the cross product of
  \<open>b - c\<close> and \<open>c - a\<close> of the corners' sphere positions, computed in double
  arithmetic, and the value returned is never negative: it is NaN or it is
  \<open>>= 0\<close>.
\<close>

theorem elementArea_fp_half_cross_not_negative:
  assumes "valid_element g e"
  shows "\<exists>r. elementArea_fp g e = Inr r \<and>
             r = fp_half_cross_magnitude (stored (x_pos (corner0 g e)))
                   (stored (x_pos (corner1 g e))) (stored (x_pos (corner2 g e))) \<and>
             (r = NaN \<or> fge r (Finite 0))"
proof -
  let ?v = "fp_cross (fp_vsub (stored (x_pos (corner1 g e))) (stored (x_pos (corner2 g e))))
              (fp_vsub (stored (x_pos (corner2 g e))) (stored (x_pos (corner0 g e))))"
  obtain u0 u1 u2 where u: "?v = (u0, u1, u2)" by (cases ?v) auto
  have "fp_magnitude ?v = fsqrt (fadd (fadd (fmul u0 u0) (fmul u1 u1)) (fmul u2 u2))"
    by (simp add: u)
  with fsqrt_not_negative [of "fadd (fadd (fmul u0 u0) (fmul u1 u1)) (fmul u2 u2)"]
  have "fp_magnitude ?v = NaN \<or> fp_magnitude ?v = PlusInfinity \<or>
        (\<exists>y\<ge>0. fp_magnitude ?v = Finite y)" by simp
  from half_not_negative [OF this] elementArea_fp_unfold [OF assms]
  show ?thesis by (simp add: fp_half_cross_magnitude_def)
qed

text \<open>
  The amended C2 on the third mesh: element 0 has area 1.
\<close>

theorem elementArea_fp_half_cross_not_negative_witness:
  "valid_element float_example_grid 0 \<and>
   elementArea_fp float_example_grid 0 = Inr (Finite 1) \<and>
   fge (Finite 1) (Finite 0)"
proof -
  have v: "valid_element float_example_grid 0" using float_example_valid by simp
  have c: "x_pos (corner0 float_example_grid 0) = (1, 0, 0)"
      "x_pos (corner1 float_example_grid 0) = (0, 1, 0)"
      "x_pos (corner2 float_example_grid 0) = (- 1, 0, 0)"
    by (simp_all add: float_example_grid_def example_node_def corner0_def corner1_def corner2_def)
  from elementArea_fp_half_cross_not_negative [OF v]
  have "elementArea_fp float_example_grid 0 = Inr (Finite 1)"
    by (simp add: c fp_half_cross_magnitude_def fsub_def rnd_0 rnd_1 rnd_small_integers)
  with v show ?thesis by simp
qed

lemma nodeNeighbourArea_loop_sum:
  assumes len: "numTouchingElements n \<le> length (touchingElements n)"
    and val: "\<forall>j<numTouchingElements n. valid_element g (touchingElements n ! j)"
  shows "i \<le> numTouchingElements n \<Longrightarrow>
         nodeNeighbourArea_loop g n i acc
         = Inr (acc + (\<Sum>j = i..<numTouchingElements n. sphereArea g (touchingElements n ! j)))"
proof (induction "numTouchingElements n - i" arbitrary: i acc)
  case 0
  then have "i = numTouchingElements n" by simp
  then show ?case by (subst nodeNeighbourArea_loop.simps) simp
next
  case (Suc d)
  then have lt: "i < numTouchingElements n" by simp
  with len have inr: "subscript (touchingElements n) i = Inr (touchingElements n ! i)"
    by (simp add: subscript_def)
  from lt val have "valid_element g (touchingElements n ! i)" by simp
  then have ea: "elementArea g (touchingElements n ! i) = Inr (sphereArea g (touchingElements n ! i))"
    by (simp add: elementArea_formula)
  have "nodeNeighbourArea_loop g n (Suc i) (acc + sphereArea g (touchingElements n ! i))
        = Inr (acc + sphereArea g (touchingElements n ! i)
               + (\<Sum>j = Suc i..<numTouchingElements n. sphereArea g (touchingElements n ! j)))"
    using Suc.hyps(1) [of "Suc i"] Suc.hyps(2) lt by simp
  moreover have "(\<Sum>j = i..<numTouchingElements n. sphereArea g (touchingElements n ! j))
        = sphereArea g (touchingElements n ! i)
          + (\<Sum>j = Suc i..<numTouchingElements n. sphereArea g (touchingElements n ! j))"
    using lt by (simp add: sum.atLeast_Suc_lessThan)
  ultimately show ?case
    using lt inr ea by (subst nodeNeighbourArea_loop.simps) simp
qed

lemma sum_list_take_nth:
  fixes f :: "nat \<Rightarrow> real"
  assumes "k \<le> length xs"
  shows "sum_list (map f (take k xs)) = (\<Sum>j = 0..<k. f (xs ! j))"
proof -
  have "sum_list (map f (take k xs)) = (\<Sum>j = 0..<length (map f (take k xs)). map f (take k xs) ! j)"
    by (rule sum_list_sum_nth)
  also have "\<dots> = (\<Sum>j = 0..<k. f (xs ! j))"
    using assms by (intro sum.cong) simp_all
  finally show ?thesis .
qed

lemma nodeNeighbourArea_value:
  assumes idx: "nodeIndex < length (nodes g)"
    and n: "n = nodes g ! nodeIndex"
    and len: "numTouchingElements n \<le> length (touchingElements n)"
    and val: "\<forall>j<numTouchingElements n. valid_element g (touchingElements n ! j)"
  shows "nodeNeighbourArea g nodeIndex
         = Inr (sum_list (map (sphereArea g) (take (numTouchingElements n) (touchingElements n))))"
proof -
  let ?k = "numTouchingElements n" and ?te = "touchingElements n"
  have "nodeNeighbourArea g nodeIndex = nodeNeighbourArea_loop g n 0 0"
    using idx n by (simp add: nodeNeighbourArea_def subscript_def)
  also have "\<dots> = Inr (\<Sum>j = 0..<?k. sphereArea g (?te ! j))"
    using nodeNeighbourArea_loop_sum [OF len val, of 0 0] by simp
  also have "\<dots> = Inr (sum_list (map (sphereArea g) (take ?k ?te)))"
    using len by (simp add: sum_list_take_nth)
  finally show ?thesis .
qed

text \<open>
  C3. With \<open>Real\<close> read as the real numbers: for every node index in range whose
  count \<open>numTouchingElements\<close> is within the array and whose first
  \<open>numTouchingElements\<close> entries of \<open>touchingElements\<close> are valid element
  indices, \<open>elementArea\<close> returns an area for each of these entries, and
  \<open>nodeNeighbourArea\<close> returns the sum of exactly these areas.
\<close>

theorem nodeNeighbourArea_sum:
  assumes idx: "nodeIndex < length (nodes g)"
    and n: "n = nodes g ! nodeIndex"
    and len: "numTouchingElements n \<le> length (touchingElements n)"
    and val: "\<forall>j<numTouchingElements n. valid_element g (touchingElements n ! j)"
  shows "\<exists>areas. map (elementArea g) (take (numTouchingElements n) (touchingElements n))
                  = map Inr areas \<and>
                nodeNeighbourArea g nodeIndex = Inr (sum_list areas)"
proof -
  let ?k = "numTouchingElements n" and ?te = "touchingElements n"
  let ?areas = "map (sphereArea g) (take ?k ?te)"
  have "\<forall>e \<in> set (take ?k ?te). valid_element g e"
    using val len by (auto simp: in_set_conv_nth)
  then have m: "map (elementArea g) (take ?k ?te) = map Inr ?areas"
    by (simp add: elementArea_formula)
  from nodeNeighbourArea_value [OF idx n len val] m show ?thesis by blast
qed

text \<open>
  C3 on the example mesh: node 1 touches the elements 0 and 1, each of area
  \<open>1/2\<close>, and its neighbour area is 1.
\<close>

theorem nodeNeighbourArea_sum_witness:
  "(1 :: nat) < length (nodes example_grid) \<and>
   numTouchingElements (nodes example_grid ! 1) \<le> length (touchingElements (nodes example_grid ! 1)) \<and>
   valid_element example_grid 0 \<and> valid_element example_grid 1 \<and>
   take (numTouchingElements (nodes example_grid ! 1)) (touchingElements (nodes example_grid ! 1))
     = [0, 1] \<and>
   nodeNeighbourArea example_grid 1 = Inr 1"
proof -
  let ?n = "nodes example_grid ! 1"
  have idx: "(1 :: nat) < length (nodes example_grid)" by (simp add: example_grid_def)
  have len: "numTouchingElements ?n \<le> length (touchingElements ?n)"
    by (simp add: example_grid_def example_node_def)
  have v: "valid_element example_grid 0" "valid_element example_grid 1"
    by (simp_all add: valid_element_def example_grid_def)
  have val: "\<forall>j<numTouchingElements ?n. valid_element example_grid (touchingElements ?n ! j)"
    using v by (simp add: example_grid_def example_node_def less_Suc_eq numeral_2_eq_2)
  have tk: "take (numTouchingElements ?n) (touchingElements ?n) = [0, 1]"
    by (simp add: example_grid_def example_node_def numeral_2_eq_2)
  have e0: "elementArea example_grid 0 = Inr (1 / 2)"
    using elementArea_formula [OF v(1)]
    by (simp add: sphereArea_def example_grid_def example_node_def corner0_def corner1_def
        corner2_def half_cross_magnitude_def)
  have e1: "elementArea example_grid 1 = Inr (1 / 2)"
    using elementArea_formula [OF v(2)]
    by (simp add: sphereArea_def example_grid_def example_node_def corner0_def corner1_def
        corner2_def half_cross_magnitude_def)
  from nodeNeighbourArea_sum [OF idx refl len val]
  obtain areas where a: "map (elementArea example_grid)
        (take (numTouchingElements ?n) (touchingElements ?n)) = map Inr areas"
      "nodeNeighbourArea example_grid 1 = Inr (sum_list areas)"
    by blast
  from a(1) tk e0 e1 have "map Inr areas = [Inr (1 / 2), Inr (1 / 2) :: fault + real]" by simp
  then have "areas = [1 / 2, 1 / 2]" by (auto simp: map_eq_Cons_conv)
  with a(2) have "nodeNeighbourArea example_grid 1 = Inr 1" by simp
  with idx len v tk show ?thesis by blast
qed

section \<open>Properties of the operations modelled from the specification\<close>

subsection \<open>The dependency lists\<close>

lemma find_target_None: "find_target ds t i = None \<longleftrightarrow> t \<notin> set ds"
  by (induction ds arbitrary: i) auto

lemma find_target_Some:
  "find_target ds t i = Some j \<Longrightarrow> i \<le> j \<and> j - i < length ds \<and> ds ! (j - i) = t"
proof (induction ds arbitrary: i)
  case Nil
  then show ?case by simp
next
  case (Cons d ds)
  show ?case
  proof (cases "d = t")
    case True
    with Cons.prems show ?thesis by simp
  next
    case False
    with Cons.prems have "find_target ds t (Suc i) = Some j" by simp
    from Cons.IH [OF this] have "Suc i \<le> j" "j - Suc i < length ds" "ds ! (j - Suc i) = t"
      by simp_all
    moreover from \<open>Suc i \<le> j\<close> have "j - i = Suc (j - Suc i)" by simp
    ultimately show ?thesis by simp
  qed
qed

lemma find_target_hit:
  assumes "find_target (take k ds) t 0 = Some i"
  shows "i < k \<and> i < length ds \<and> ds ! i = t"
  using find_target_Some [OF assms] by auto

lemma distinct_after_update:
  assumes "\<forall>n \<in> set ns. distinct (dependencyTargets n)"
    and "distinct (dependencyTargets n')"
  shows "\<forall>n \<in> set (ns[i := n']). distinct (dependencyTargets n)"
  using assms set_update_subset_insert [of ns i n'] by auto

lemma addMatrixDependency_out_of_range:
  "\<not> node1 < length (nodes g) \<Longrightarrow>
   addMatrixDependency g node1 node2 coeff transposed = Inl OutOfBounds"
  by (simp add: addMatrixDependency_def subscript_def)

lemma addMatrixDependency_found:
  assumes "node1 < length (nodes g)" and "n = nodes g ! node1"
    and "find_target (take (numDepNodes n) (dependingNodes n)) node2 0 = Some i"
  shows "addMatrixDependency g node1 node2 coeff transposed =
     (if transposed
      then (if i < length (transposedCoeffs n)
            then Inr (g\<lparr>nodes := (nodes g)[node1 :=
                   n\<lparr>transposedCoeffs :=
                       (transposedCoeffs n)[i := transposedCoeffs n ! i + coeff]\<rparr>]\<rparr>)
            else Inl OutOfBounds)
      else (if i < length (dependingCoeffs n)
            then Inr (g\<lparr>nodes := (nodes g)[node1 :=
                   n\<lparr>dependingCoeffs :=
                       (dependingCoeffs n)[i := dependingCoeffs n ! i + coeff]\<rparr>]\<rparr>)
            else Inl OutOfBounds))"
  using assms by (simp add: addMatrixDependency_def subscript_def)

lemma addMatrixDependency_new:
  assumes "node1 < length (nodes g)" and "n = nodes g ! node1"
    and "find_target (take (numDepNodes n) (dependingNodes n)) node2 0 = None"
  shows "addMatrixDependency g node1 node2 coeff transposed =
     (if numDepNodes n < length (dependingNodes n) \<and>
         numDepNodes n < length (dependingCoeffs n) \<and>
         numDepNodes n < length (transposedCoeffs n)
      then Inr (g\<lparr>nodes := (nodes g)[node1 :=
             n\<lparr>dependingNodes := (dependingNodes n)[numDepNodes n := node2],
               dependingCoeffs := (dependingCoeffs n)
                 [numDepNodes n := (if transposed then 0 else coeff)],
               transposedCoeffs := (transposedCoeffs n)
                 [numDepNodes n := (if transposed then coeff else 0)],
               numDepNodes := Suc (numDepNodes n)\<rparr>]\<rparr>)
      else Inl OutOfBounds)"
  using assms by (simp add: addMatrixDependency_def subscript_def Let_def)

lemma addMatrixDependency_keeps_distinct:
  assumes inv: "\<forall>n \<in> set (nodes g). distinct (dependencyTargets n)"
    and step: "addMatrixDependency g node1 node2 coeff transposed = Inr g'"
  shows "\<forall>n \<in> set (nodes g'). distinct (dependencyTargets n)"
proof (cases "node1 < length (nodes g)")
  case False
  with step show ?thesis by (simp add: addMatrixDependency_out_of_range)
next
  case r: True
  let ?n = "nodes g ! node1"
  let ?k = "numDepNodes ?n"
  from r inv have dn: "distinct (dependencyTargets ?n)" by simp
  show ?thesis
  proof (cases "find_target (take ?k (dependingNodes ?n)) node2 0")
    case (Some i)
    define n' where "n' =
      (if transposed
       then ?n\<lparr>transposedCoeffs := (transposedCoeffs ?n)[i := transposedCoeffs ?n ! i + coeff]\<rparr>
       else ?n\<lparr>dependingCoeffs := (dependingCoeffs ?n)[i := dependingCoeffs ?n ! i + coeff]\<rparr>)"
    have g': "g' = g\<lparr>nodes := (nodes g)[node1 := n']\<rparr>"
      using step unfolding addMatrixDependency_found [OF r refl Some] n'_def
      by (simp split: if_splits)
    have "dependencyTargets n' = dependencyTargets ?n"
      by (simp add: n'_def dependencyTargets_def)
    with dn have "distinct (dependencyTargets n')" by simp
    from distinct_after_update [OF inv this, of node1] show ?thesis
      unfolding g' by simp
  next
    case None
    then have fresh: "node2 \<notin> set (take ?k (dependingNodes ?n))"
      by (simp add: find_target_None)
    define n' where "n' =
      ?n\<lparr>dependingNodes := (dependingNodes ?n)[?k := node2],
         dependingCoeffs := (dependingCoeffs ?n)[?k := (if transposed then 0 else coeff)],
         transposedCoeffs := (transposedCoeffs ?n)[?k := (if transposed then coeff else 0)],
         numDepNodes := Suc ?k\<rparr>"
    have both: "?k < length (dependingNodes ?n) \<and> g' = g\<lparr>nodes := (nodes g)[node1 := n']\<rparr>"
      using step unfolding addMatrixDependency_new [OF r refl None] n'_def
      by (simp split: if_splits)
    then have k: "?k < length (dependingNodes ?n)"
      and g': "g' = g\<lparr>nodes := (nodes g)[node1 := n']\<rparr>" by simp_all
    have "dependencyTargets n' = take ?k (dependingNodes ?n) @ [node2]"
      using k by (simp add: n'_def dependencyTargets_def take_Suc_conv_app_nth)
    with fresh dn have "distinct (dependencyTargets n')"
      by (simp add: dependencyTargets_def)
    from distinct_after_update [OF inv this, of node1] show ?thesis
      unfolding g' by simp
  qed
qed

lemma addMatrixDependency_accumulates:
  assumes r: "node1 < length (nodes g)"
    and ok: "dependency_arrays_ok (nodes g ! node1)"
    and ex: "node2 \<in> set (dependencyTargets (nodes g ! node1))"
  shows "\<exists>g' i. addMatrixDependency g node1 node2 coeff transposed = Inr g' \<and>
           i < numDepNodes (nodes g ! node1) \<and>
           dependingNodes (nodes g ! node1) ! i = node2 \<and>
           numDepNodes (nodes g' ! node1) = numDepNodes (nodes g ! node1) \<and>
           dependingNodes (nodes g' ! node1) = dependingNodes (nodes g ! node1) \<and>
           (if transposed
            then transposedCoeffs (nodes g' ! node1)
                   = (transposedCoeffs (nodes g ! node1))
                       [i := transposedCoeffs (nodes g ! node1) ! i + coeff] \<and>
                 dependingCoeffs (nodes g' ! node1) = dependingCoeffs (nodes g ! node1)
            else dependingCoeffs (nodes g' ! node1)
                   = (dependingCoeffs (nodes g ! node1))
                       [i := dependingCoeffs (nodes g ! node1) ! i + coeff] \<and>
                 transposedCoeffs (nodes g' ! node1) = transposedCoeffs (nodes g ! node1))"
proof -
  let ?n = "nodes g ! node1"
  from ex have "find_target (take (numDepNodes ?n) (dependingNodes ?n)) node2 0 \<noteq> None"
    by (simp add: find_target_None dependencyTargets_def)
  then obtain i where f: "find_target (take (numDepNodes ?n) (dependingNodes ?n)) node2 0 = Some i"
    by blast
  from find_target_hit [OF f] have i: "i < numDepNodes ?n" "dependingNodes ?n ! i = node2"
    by simp_all
  from ok i have len: "i < length (dependingCoeffs ?n)" "i < length (transposedCoeffs ?n)"
    by (simp_all add: dependency_arrays_ok_def)
  note eq = addMatrixDependency_found [OF r refl f, of coeff transposed]
  show ?thesis
  proof (cases transposed)
    case True
    let ?n' = "?n\<lparr>transposedCoeffs := (transposedCoeffs ?n)[i := transposedCoeffs ?n ! i + coeff]\<rparr>"
    let ?g' = "g\<lparr>nodes := (nodes g)[node1 := ?n']\<rparr>"
    have c: "addMatrixDependency g node1 node2 coeff transposed = Inr ?g'"
      using eq True len by simp
    have n: "nodes ?g' ! node1 = ?n'" using r by simp
    show ?thesis
      apply (rule exI [of _ ?g'], rule exI [of _ i])
      unfolding n using c i True by simp
  next
    case False
    let ?n' = "?n\<lparr>dependingCoeffs := (dependingCoeffs ?n)[i := dependingCoeffs ?n ! i + coeff]\<rparr>"
    let ?g' = "g\<lparr>nodes := (nodes g)[node1 := ?n']\<rparr>"
    have c: "addMatrixDependency g node1 node2 coeff transposed = Inr ?g'"
      using eq False len by simp
    have n: "nodes ?g' ! node1 = ?n'" using r by simp
    show ?thesis
      apply (rule exI [of _ ?g'], rule exI [of _ i])
      unfolding n using c i False by simp
  qed
qed

text \<open>
  C5, on the model of \<open>addMatrixDependency\<close> written from the specification.
  In every mesh built from empty dependency lists by calls that return, the first
  \<open>numDepNodes\<close> entries of \<open>dependingNodes\<close> of every node are pairwise
  different. And when \<open>node1\<close> already depends on \<open>node2\<close> (and its arrays have
  their capacity), the call returns, the count and the targets of \<open>node1\<close> are
  unchanged, and \<open>coeff\<close> has been added to the coefficient stored for the pair
  in the requested direction (forward or transposed), the other direction being
  unchanged.
\<close>

theorem dependency_list_no_duplicates_accumulates:
  "(built_from g0 g \<longrightarrow> (\<forall>n \<in> set (nodes g). distinct (dependencyTargets n))) \<and>
   (node1 < length (nodes g) \<and> dependency_arrays_ok (nodes g ! node1) \<and>
    node2 \<in> set (dependencyTargets (nodes g ! node1)) \<longrightarrow>
      (\<exists>g' i. addMatrixDependency g node1 node2 coeff False = Inr g' \<and>
          i < numDepNodes (nodes g ! node1) \<and>
          dependingNodes (nodes g ! node1) ! i = node2 \<and>
          numDepNodes (nodes g' ! node1) = numDepNodes (nodes g ! node1) \<and>
          dependingNodes (nodes g' ! node1) = dependingNodes (nodes g ! node1) \<and>
          dependingCoeffs (nodes g' ! node1)
            = (dependingCoeffs (nodes g ! node1))
                [i := dependingCoeffs (nodes g ! node1) ! i + coeff] \<and>
          transposedCoeffs (nodes g' ! node1) = transposedCoeffs (nodes g ! node1)) \<and>
      (\<exists>g' i. addMatrixDependency g node1 node2 coeff True = Inr g' \<and>
          i < numDepNodes (nodes g ! node1) \<and>
          dependingNodes (nodes g ! node1) ! i = node2 \<and>
          numDepNodes (nodes g' ! node1) = numDepNodes (nodes g ! node1) \<and>
          dependingNodes (nodes g' ! node1) = dependingNodes (nodes g ! node1) \<and>
          transposedCoeffs (nodes g' ! node1)
            = (transposedCoeffs (nodes g ! node1))
                [i := transposedCoeffs (nodes g ! node1) ! i + coeff] \<and>
          dependingCoeffs (nodes g' ! node1) = dependingCoeffs (nodes g ! node1)))"
proof (intro conjI impI)
  assume "built_from g0 g"
  then show "\<forall>n \<in> set (nodes g). distinct (dependencyTargets n)"
  proof (induction rule: built_from.induct)
    case start
    then show ?case by (simp add: dependencyTargets_def)
  next
    case (add g node1 node2 coeff transposed g')
    from addMatrixDependency_keeps_distinct [OF add.IH add.hyps(2)] show ?case .
  qed
next
  assume a: "node1 < length (nodes g) \<and> dependency_arrays_ok (nodes g ! node1) \<and>
    node2 \<in> set (dependencyTargets (nodes g ! node1))"
  then have r: "node1 < length (nodes g)" and ok: "dependency_arrays_ok (nodes g ! node1)"
    and ex: "node2 \<in> set (dependencyTargets (nodes g ! node1))" by simp_all
  from addMatrixDependency_accumulates [OF r ok ex, of coeff False]
  show "\<exists>g' i. addMatrixDependency g node1 node2 coeff False = Inr g' \<and>
          i < numDepNodes (nodes g ! node1) \<and>
          dependingNodes (nodes g ! node1) ! i = node2 \<and>
          numDepNodes (nodes g' ! node1) = numDepNodes (nodes g ! node1) \<and>
          dependingNodes (nodes g' ! node1) = dependingNodes (nodes g ! node1) \<and>
          dependingCoeffs (nodes g' ! node1)
            = (dependingCoeffs (nodes g ! node1))
                [i := dependingCoeffs (nodes g ! node1) ! i + coeff] \<and>
          transposedCoeffs (nodes g' ! node1) = transposedCoeffs (nodes g ! node1)"
    by simp
  from addMatrixDependency_accumulates [OF r ok ex, of coeff True]
  show "\<exists>g' i. addMatrixDependency g node1 node2 coeff True = Inr g' \<and>
          i < numDepNodes (nodes g ! node1) \<and>
          dependingNodes (nodes g ! node1) ! i = node2 \<and>
          numDepNodes (nodes g' ! node1) = numDepNodes (nodes g ! node1) \<and>
          dependingNodes (nodes g' ! node1) = dependingNodes (nodes g ! node1) \<and>
          transposedCoeffs (nodes g' ! node1)
            = (transposedCoeffs (nodes g ! node1))
                [i := transposedCoeffs (nodes g ! node1) ! i + coeff] \<and>
          dependingCoeffs (nodes g' ! node1) = dependingCoeffs (nodes g ! node1)"
    by simp
qed

text \<open>
  C5 on the example mesh: after node 0 has been linked to node 1 with coefficient
  2, its target list is \<open>[1]\<close>; linking it to node 1 again with coefficient 3
  leaves one entry, now with coefficient 5.
\<close>

theorem dependency_list_no_duplicates_accumulates_witness:
  "built_from example_grid example_linked \<and>
   dependencyTargets (nodes example_linked ! 0) = [1] \<and>
   distinct (dependencyTargets (nodes example_linked ! 0)) \<and>
   dependency_arrays_ok (nodes example_linked ! 0) \<and>
   dependingCoeffs (nodes example_linked ! 0) ! 0 = 2 \<and>
   (\<exists>g'. addMatrixDependency example_linked 0 1 3 False = Inr g' \<and>
         numDepNodes (nodes g' ! 0) = 1 \<and>
         dependencyTargets (nodes g' ! 0) = [1] \<and>
         dependingCoeffs (nodes g' ! 0) ! 0 = 5)"
proof -
  have s: "\<forall>n \<in> set (nodes example_grid). numDepNodes n = 0"
    by (simp add: example_grid_def example_node_def)
  have a1: "addMatrixDependency example_grid 0 1 2 False = Inr example_linked"
    by (simp add: addMatrixDependency_def subscript_def example_linked_def example_grid_def
        example_node_def)
  have b: "built_from example_grid example_linked"
    by (rule built_from.add [OF built_from.start [OF s] a1])
  have n0: "numDepNodes (nodes example_linked ! 0) = 1"
      "dependingNodes (nodes example_linked ! 0) = (replicate 10 0)[0 := 1]"
      "dependingCoeffs (nodes example_linked ! 0) = (replicate 10 0)[0 := 2]"
      "transposedCoeffs (nodes example_linked ! 0) = (replicate 10 0)[0 := 0]"
      "0 < length (nodes example_linked)"
    by (simp_all add: example_linked_def example_grid_def example_node_def)
  have t: "dependencyTargets (nodes example_linked ! 0) = [1]"
    by (simp add: dependencyTargets_def n0 take_Suc_conv_app_nth)
  have ok: "dependency_arrays_ok (nodes example_linked ! 0)"
    by (simp add: dependency_arrays_ok_def n0 MAX_DEPENDING_NODES_def)
  have c: "dependingCoeffs (nodes example_linked ! 0) ! 0 = 2" by (simp add: n0)
  from dependency_list_no_duplicates_accumulates [of example_grid example_linked 0 1 3] b
  have d: "\<forall>n \<in> set (nodes example_linked). distinct (dependencyTargets n)" by blast
  from n0(5) have "nodes example_linked ! 0 \<in> set (nodes example_linked)" by (rule nth_mem)
  with d have d0: "distinct (dependencyTargets (nodes example_linked ! 0))" by blast
  from dependency_list_no_duplicates_accumulates [of example_grid example_linked 0 1 3] n0(5) ok t
  obtain g' i where g': "addMatrixDependency example_linked 0 1 3 False = Inr g'"
      "i < numDepNodes (nodes example_linked ! 0)"
      "numDepNodes (nodes g' ! 0) = numDepNodes (nodes example_linked ! 0)"
      "dependingNodes (nodes g' ! 0) = dependingNodes (nodes example_linked ! 0)"
      "dependingCoeffs (nodes g' ! 0)
         = (dependingCoeffs (nodes example_linked ! 0))
             [i := dependingCoeffs (nodes example_linked ! 0) ! i + 3]"
    by auto
  from g'(2) n0(1) have i: "i = 0" by simp
  have "numDepNodes (nodes g' ! 0) = 1" using g'(3) n0(1) by simp
  moreover have "dependencyTargets (nodes g' ! 0) = [1]"
    using t g'(3,4) by (simp add: dependencyTargets_def)
  moreover have "dependingCoeffs (nodes g' ! 0) ! 0 = 5"
    using g'(5) i by (simp add: n0)
  ultimately show ?thesis using b t d0 ok c g'(1) by blast
qed

subsection \<open>The offset of the field-aligned currents\<close>













end
